theory Spec2Isabelle
  imports Main "HOL-Library.Char_ord" "HOL-Library.List_Lexorder"
begin

section \<open>The warehouse tables\<close>

text \<open>
  The three relations the publish step touches, with the columns of the \<^verbatim>\<open>INSERT\<close>
  statements of \<^verbatim>\<open>github_repo_etl.insert_metrics\<close>, \<^verbatim>\<open>pypi_etl.load_to_snowflake\<close> and
  \<^verbatim>\<open>load_public.load_to_snowflake\<close>. A relation is the list of its rows in insertion
  order. Field names carry the alias the query gives the relation (\<^verbatim>\<open>gm\<close>, \<^verbatim>\<open>ps\<close>) or
  \<^verbatim>\<open>tm\<close> for \<^verbatim>\<open>public.tech_metrics\<close>.

  The ingestion code always writes a name and a recency marker: \<^verbatim>\<open>collected_at\<close> is
  \<^verbatim>\<open>datetime.now().isoformat()\<close> and the download counts go through \<^verbatim>\<open>int(...)\<close>.
  These columns are therefore not nullable here. The other GitHub columns hold whatever
  scalar the API's JSON held, \<^verbatim>\<open>None\<close> included.
\<close>

type_synonym timestamp = int

datatype val = VNull | VInt int | VStr string

record github_row =
  gm_name :: string
  gm_github_owner :: string
  gm_github_repository_name :: string
  gm_stars :: val
  gm_forks :: val
  gm_watchers :: val
  gm_open_issues :: val
  gm_language :: val
  gm_size_kb :: val
  gm_created_at :: val
  gm_updated_at :: val
  gm_collected_at :: timestamp
  gm_total_contributors :: val
  gm_total_commits :: val
  gm_commits_last_year :: val
  gm_commits_last_month :: val

record pypi_row =
  ps_name :: string
  ps_pypi_name :: string
  ps_total_downloads_alltime :: int
  ps_downloads_last_month :: int
  ps_downloads_last_year :: int

record public_row =
  tm_name :: string
  tm_github_owner :: string
  tm_github_repository_name :: string
  tm_pypi_name :: "string option"
  tm_language :: val
  tm_stars :: val
  tm_forks :: val
  tm_watchers :: val
  tm_open_issues :: val
  tm_size_kb :: val
  tm_created_at :: val
  tm_updated_at :: val
  tm_total_contributors :: val
  tm_total_commits :: val
  tm_total_downloads_alltime :: "int option"
  tm_commits_last_year :: val
  tm_downloads_last_year :: "int option"
  tm_commits_last_month :: val
  tm_downloads_last_month :: "int option"

section \<open>The query of \<^verbatim>\<open>load_public.load_to_snowflake\<close>\<close>

subsection \<open>Relational operators\<close>

text \<open>\<^verbatim>\<open>MAX\<close> over a group: \<^verbatim>\<open>NULL\<close> (here \<open>None\<close>) over no rows.\<close>

fun maximum :: "'a::linorder list \<Rightarrow> 'a option" where
  "maximum [] = None"
| "maximum (x # xs) = Some (fold max xs x)"

text \<open>
  \<^verbatim>\<open>xs INNER JOIN ys ON on\<close> and \<^verbatim>\<open>xs LEFT JOIN ys ON on\<close>, as nested loops: one output
  row per matching pair; the left join pads a left row with no match with \<open>None\<close>.
\<close>

definition inner_join :: "('a \<Rightarrow> 'b \<Rightarrow> bool) \<Rightarrow> 'a list \<Rightarrow> 'b list \<Rightarrow> ('a \<times> 'b) list" where
  "inner_join on xs ys = concat (map (\<lambda>x. map (Pair x) (filter (on x) ys)) xs)"

definition left_join ::
  "('a \<Rightarrow> 'b \<Rightarrow> bool) \<Rightarrow> 'a list \<Rightarrow> 'b list \<Rightarrow> ('a \<times> 'b option) list" where
  "left_join on xs ys =
     concat (map (\<lambda>x. case filter (on x) ys of
                          [] \<Rightarrow> [(x, None)]
                        | m # ms \<Rightarrow> map (\<lambda>y. (x, Some y)) (m # ms)) xs)"

subsection \<open>The two \<^verbatim>\<open>latest\<close> subqueries and common table expressions\<close>

text \<open>
  \<^verbatim>\<open>SELECT name, MAX(collected_at) AS max_collected_at FROM github_repo_metrics GROUP BY name\<close>
\<close>

definition github_latest :: "github_row list \<Rightarrow> (string \<times> timestamp option) list" where
  "github_latest gm =
     map (\<lambda>n. (n, maximum (map gm_collected_at (filter (\<lambda>r. gm_name r = n) gm))))
         (remdups (map gm_name gm))"

text \<open>
  \<^verbatim>\<open>SELECT gm.* FROM github_repo_metrics gm INNER JOIN (...) latest
  ON gm.name = latest.name AND gm.collected_at = latest.max_collected_at\<close>
\<close>

definition latest_github :: "github_row list \<Rightarrow> github_row list" where
  "latest_github gm =
     map fst (inner_join (\<lambda>g l. gm_name g = fst l \<and> Some (gm_collected_at g) = snd l)
                gm (github_latest gm))"

text \<open>
  \<^verbatim>\<open>SELECT name, MAX(downloads_last_year) AS max_downloads_last_year
  FROM pypi_download_stats GROUP BY name\<close>
\<close>

definition pypi_latest :: "pypi_row list \<Rightarrow> (string \<times> int option) list" where
  "pypi_latest ps =
     map (\<lambda>n. (n, maximum (map ps_downloads_last_year (filter (\<lambda>r. ps_name r = n) ps))))
         (remdups (map ps_name ps))"

text \<open>
  \<^verbatim>\<open>SELECT ps.* FROM pypi_download_stats ps INNER JOIN (...) latest
  ON ps.name = latest.name AND ps.downloads_last_year = latest.max_downloads_last_year\<close>
\<close>

definition latest_pypi :: "pypi_row list \<Rightarrow> pypi_row list" where
  "latest_pypi ps =
     map fst (inner_join (\<lambda>p l. ps_name p = fst l \<and> Some (ps_downloads_last_year p) = snd l)
                ps (pypi_latest ps))"

subsection \<open>The final \<^verbatim>\<open>SELECT\<close>\<close>

text \<open>The select list, in the column order of the \<^verbatim>\<open>INSERT\<close>.\<close>

definition select_row :: "github_row \<times> pypi_row option \<Rightarrow> public_row" where
  "select_row gp = (case gp of (g, p) \<Rightarrow>
     \<lparr> tm_name = gm_name g,
       tm_github_owner = gm_github_owner g,
       tm_github_repository_name = gm_github_repository_name g,
       tm_pypi_name = map_option ps_pypi_name p,
       tm_language = gm_language g,
       tm_stars = gm_stars g,
       tm_forks = gm_forks g,
       tm_watchers = gm_watchers g,
       tm_open_issues = gm_open_issues g,
       tm_size_kb = gm_size_kb g,
       tm_created_at = gm_created_at g,
       tm_updated_at = gm_updated_at g,
       tm_total_contributors = gm_total_contributors g,
       tm_total_commits = gm_total_commits g,
       tm_total_downloads_alltime = map_option ps_total_downloads_alltime p,
       tm_commits_last_year = gm_commits_last_year g,
       tm_downloads_last_year = map_option ps_downloads_last_year p,
       tm_commits_last_month = gm_commits_last_month g,
       tm_downloads_last_month = map_option ps_downloads_last_month p \<rparr>)"

text \<open>
  \<^verbatim>\<open>FROM latest_github g LEFT JOIN latest_pypi p ON g.name = p.name ORDER BY g.name\<close>.
  The sort is the stable insertion sort of the library: among rows of one name, which
  SQL leaves in any order, it keeps the order of the join.
\<close>

definition consolidate :: "github_row list \<Rightarrow> pypi_row list \<Rightarrow> public_row list" where
  "consolidate lg lp =
     map select_row
       (sort_key (\<lambda>gp. gm_name (fst gp)) (left_join (\<lambda>g p. gm_name g = ps_name p) lg lp))"

definition tech_metrics_query :: "github_row list \<Rightarrow> pypi_row list \<Rightarrow> public_row list" where
  "tech_metrics_query gm ps = consolidate (latest_github gm) (latest_pypi ps)"


section \<open>The warehouse and a connection to it\<close>

text \<open>
  The committed contents of the three relations: what any reader of the warehouse
  observes.
\<close>

record warehouse =
  github_repo_metrics :: "github_row list"
  pypi_download_stats :: "pypi_row list"
  tech_metrics :: "public_row list"

text \<open>
  The connector and the warehouse engine are not code of this repository, and every
  function here calls \<^verbatim>\<open>snowflake.connector.connect(**config['snowflake'])\<close> with the six
  keys \<^verbatim>\<open>user\<close>, \<^verbatim>\<open>password\<close>, \<^verbatim>\<open>account\<close>, \<^verbatim>\<open>warehouse\<close>, \<^verbatim>\<open>database\<close>, \<^verbatim>\<open>schema\<close> and
  nothing else. The two properties of the session so obtained that decide what a later
  \<^verbatim>\<open>rollback()\<close> can undo are therefore parameters of the model:
  \<^item> \<open>autocommit\<close>: each statement is committed when it completes. The code never
    passes \<^verbatim>\<open>autocommit=False\<close> and never executes \<^verbatim>\<open>BEGIN\<close>, so the session has the
    account's setting, which the connector documents as on by default.
  \<^item> \<open>truncate_commits\<close>: \<^verbatim>\<open>TRUNCATE TABLE\<close> runs as a DDL statement, committing the open
    transaction and itself, as Snowflake documents.
\<close>

record session =
  autocommit :: bool
  truncate_commits :: bool

definition snowflake_default :: session where
  "snowflake_default = \<lparr> autocommit = True, truncate_commits = True \<rparr>"

text \<open>A session in which \<^verbatim>\<open>TRUNCATE\<close> and \<^verbatim>\<open>INSERT\<close> would share one transaction.\<close>

definition transactional :: session where
  "transactional = \<lparr> autocommit = False, truncate_commits = False \<rparr>"

datatype call =
  Connect | Execute_truncate | Execute_insert | Commit | Rollback | Cursor_close | Conn_close

text \<open>
  A connection: its settings, the committed warehouse, the open transaction's view of
  the warehouse if one is open, and the calls made on it so far.
\<close>

record conn =
  settings :: session
  committed :: warehouse
  pending :: "warehouse option"
  calls :: "call list"

definition visible :: "conn \<Rightarrow> warehouse" where
  "visible c = (case pending c of None \<Rightarrow> committed c | Some v \<Rightarrow> v)"

definition dml :: "(warehouse \<Rightarrow> warehouse) \<Rightarrow> conn \<Rightarrow> conn" where
  "dml upd c =
     (if autocommit (settings c) then c\<lparr>committed := upd (visible c), pending := None\<rparr>
      else c\<lparr>pending := Some (upd (visible c))\<rparr>)"

definition ddl :: "(warehouse \<Rightarrow> warehouse) \<Rightarrow> conn \<Rightarrow> conn" where
  "ddl upd c =
     (if autocommit (settings c) \<or> truncate_commits (settings c)
      then c\<lparr>committed := upd (visible c), pending := None\<rparr>
      else c\<lparr>pending := Some (upd (visible c))\<rparr>)"

definition db_commit :: "conn \<Rightarrow> conn" where
  "db_commit c = c\<lparr>committed := visible c, pending := None\<rparr>"

definition db_rollback :: "conn \<Rightarrow> conn" where
  "db_rollback c = c\<lparr>pending := None\<rparr>"

definition called :: "call \<Rightarrow> conn \<Rightarrow> conn" where
  "called x c = c\<lparr>calls := calls c @ [x]\<rparr>"

definition connect :: "session \<Rightarrow> warehouse \<Rightarrow> conn" where
  "connect s w = \<lparr> settings = s, committed = w, pending = None, calls = [Connect] \<rparr>"

text \<open>
  Failure injection. An exception is its message. Every call on a connection can raise:
  the faults of a run map each call that raises to its exception, and a call that
  raises has no effect on the warehouse. \<open>At_row i\<close> is the \<open>i\<close>-th \<^verbatim>\<open>INSERT\<close> of an
  ingestion loop.
\<close>

type_synonym exn = string

datatype step =
  At_connect | At_truncate | At_insert | At_commit | At_rollback | At_cursor_close
  | At_conn_close | At_row nat

type_synonym faults = "step \<rightharpoonup> exn"

definition raises :: "faults \<Rightarrow> step \<Rightarrow> exn option" where
  "raises f s = f s"

text \<open>
  \<^verbatim>\<open>cursor.close(); conn.close()\<close>: when the first call raises, the second is not made.
\<close>

definition close_both :: "faults \<Rightarrow> conn \<Rightarrow> exn option \<times> conn" where
  "close_both f c =
     (let c1 = called Cursor_close c in
      case raises f At_cursor_close of Some e \<Rightarrow> (Some e, c1) | None \<Rightarrow>
      (let c2 = called Conn_close c1 in
       case raises f At_conn_close of Some e \<Rightarrow> (Some e, c2) | None \<Rightarrow> (None, c2)))"

section \<open>\<^verbatim>\<open>load_public.py\<close>\<close>

text \<open>
  The body of the \<^verbatim>\<open>try\<close> block of \<^verbatim>\<open>load_to_snowflake\<close>: \<open>Inl e\<close> when a call raises
  \<open>e\<close>, \<open>Inr inserted_count\<close> (the count the function prints) otherwise, with the
  connection as the block leaves it.
\<close>

definition try_block :: "faults \<Rightarrow> conn \<Rightarrow> (exn + nat) \<times> conn" where
  "try_block f c =
     (let c1 = called Execute_truncate c in
      case raises f At_truncate of Some e \<Rightarrow> (Inl e, c1) | None \<Rightarrow>
      let c2 = ddl (\<lambda>w. w\<lparr>tech_metrics := []\<rparr>) c1;
          c3 = called Execute_insert c2 in
      case raises f At_insert of Some e \<Rightarrow> (Inl e, c3) | None \<Rightarrow>
      let c4 = dml (\<lambda>w. w\<lparr>tech_metrics := tech_metrics w @
                      tech_metrics_query (github_repo_metrics w) (pypi_download_stats w)\<rparr>) c3;
          inserted_count =
            length (tech_metrics_query (github_repo_metrics (visible c3))
                      (pypi_download_stats (visible c3)));
          c5 = called Commit c4 in
      case raises f At_commit of Some e \<Rightarrow> (Inl e, c5) | None \<Rightarrow>
      (Inr inserted_count, db_commit c5))"

text \<open>
  The \<^verbatim>\<open>finally\<close> clause, entered with the result the function has so far (\<open>Inl\<close> an
  exception on its way out): an exception of a \<^verbatim>\<open>close()\<close> takes its place.
\<close>

definition finally_close ::
  "faults \<Rightarrow> exn + nat \<Rightarrow> conn \<Rightarrow> (exn + nat) \<times> warehouse \<times> call list" where
  "finally_close f r c =
     (case close_both f c of
        (Some e, c') \<Rightarrow> (Inl e, committed c', calls c')
      | (None, c') \<Rightarrow> (r, committed c', calls c'))"

text \<open>
  The \<^verbatim>\<open>except Exception as e\<close> clause: \<^verbatim>\<open>conn.rollback()\<close>, then \<^verbatim>\<open>raise\<close>. When
  \<^verbatim>\<open>rollback()\<close> raises, its exception is the one on its way out.
\<close>

definition except_rollback :: "faults \<Rightarrow> exn \<Rightarrow> conn \<Rightarrow> exn \<times> conn" where
  "except_rollback f e c =
     (let c1 = called Rollback c in
      case raises f At_rollback of Some e' \<Rightarrow> (e', c1) | None \<Rightarrow> (e, db_rollback c1))"

text \<open>
  \<^verbatim>\<open>load_to_snowflake(snowflake_config)\<close>: what it raises or prints, the committed
  warehouse afterwards, and the calls it made. \<^verbatim>\<open>connect\<close> and \<^verbatim>\<open>cursor\<close> stand before
  the \<^verbatim>\<open>try\<close>, so a failing \<^verbatim>\<open>connect\<close> propagates with no handler run.
\<close>

definition load_to_snowflake ::
  "session \<Rightarrow> faults \<Rightarrow> warehouse \<Rightarrow> (exn + nat) \<times> warehouse \<times> call list" where
  "load_to_snowflake s f w =
     (case raises f At_connect of Some e \<Rightarrow> (Inl e, w, [Connect]) | None \<Rightarrow>
      (case try_block f (connect s w) of
         (Inr n, c) \<Rightarrow> finally_close f (Inr n) c
       | (Inl e, c) \<Rightarrow>
           (case except_rollback f e c of (e', c') \<Rightarrow> finally_close f (Inl e') c')))"

text \<open>
  The process environment: \<^verbatim>\<open>config.json\<close> (\<open>None\<close> when the file is not found,
  otherwise its \<^verbatim>\<open>libraries\<close>, \<open>[]\<close> when the key is absent) and \<^verbatim>\<open>os.getenv\<close>.
\<close>

record library =
  lib_name :: string
  lib_github_owner :: string
  lib_github_repo :: string
  lib_pypi_package :: string

record environment =
  config_json :: "library list option"
  getenv :: "string \<Rightarrow> string option"

definition truthy :: "string option \<Rightarrow> bool" where
  "truthy v = (case v of None \<Rightarrow> False | Some s \<Rightarrow> s \<noteq> [])"

definition snowflake_section :: "environment \<Rightarrow> (string \<times> string option) list" where
  "snowflake_section env =
     [(''user'', getenv env ''SNOWFLAKE_USER''),
      (''password'', getenv env ''SNOWFLAKE_PASSWORD''),
      (''account'', getenv env ''SNOWFLAKE_ACCOUNT''),
      (''warehouse'', getenv env ''SNOWFLAKE_WAREHOUSE''),
      (''database'', getenv env ''SNOWFLAKE_DATABASE''),
      (''schema'', getenv env ''SNOWFLAKE_SCHEMA'')]"

text \<open>\<^verbatim>\<open>load_public.load_config\<close>: \<open>Inl 1\<close> is \<^verbatim>\<open>exit(1)\<close>.\<close>

definition load_config :: "environment \<Rightarrow> nat + (string \<times> string option) list" where
  "load_config env =
     (case config_json env of None \<Rightarrow> Inl 1 | Some config_data \<Rightarrow>
        if \<not> list_all truthy (map snd (snowflake_section env)) then Inl 1
        else Inr (snowflake_section env))"

text \<open>
  How a call of a module's \<^verbatim>\<open>main()\<close> ends: it returns, raises an \<^verbatim>\<open>Exception\<close>, or
  leaves through one of the two \<^verbatim>\<open>BaseException\<close>s that \<^verbatim>\<open>except Exception\<close> does not
  catch.
\<close>

datatype outcome = Returned | Raised exn | SystemExit nat | KeyboardInterrupt

definition load_public_main ::
  "environment \<Rightarrow> session \<Rightarrow> faults \<Rightarrow> warehouse \<Rightarrow> outcome \<times> warehouse" where
  "load_public_main env s f w =
     (case load_config env of Inl code \<Rightarrow> (SystemExit code, w) | Inr config \<Rightarrow>
      (case load_to_snowflake s f w of
         (Inl e, w', cs) \<Rightarrow> (Raised e, w')
       | (Inr n, w', cs) \<Rightarrow> (Returned, w')))"

section \<open>\<^verbatim>\<open>main.py\<close>: the orchestrator\<close>

text \<open>
  \<^verbatim>\<open>run_github_etl\<close>, \<^verbatim>\<open>run_pypi_etl\<close>, \<^verbatim>\<open>run_load_public\<close>: each calls its module's
  \<^verbatim>\<open>main()\<close> (a parameter here, acting on the state of the world) under
  \<^verbatim>\<open>except Exception\<close>. \<open>Inr\<close> is the flag returned, \<open>Inl\<close> what passes through.
\<close>

definition run_phase :: "('w \<Rightarrow> outcome \<times> 'w) \<Rightarrow> 'w \<Rightarrow> (outcome + bool) \<times> 'w" where
  "run_phase phase_main w =
     (case phase_main w of
        (Returned, w') \<Rightarrow> (Inr True, w')
      | (Raised e, w') \<Rightarrow> (Inr False, w')
      | (SystemExit code, w') \<Rightarrow> (Inl (SystemExit code), w')
      | (KeyboardInterrupt, w') \<Rightarrow> (Inl KeyboardInterrupt, w'))"

definition run_github_etl :: "('w \<Rightarrow> outcome \<times> 'w) \<Rightarrow> 'w \<Rightarrow> (outcome + bool) \<times> 'w" where
  "run_github_etl github_repo_etl_main = run_phase github_repo_etl_main"

definition run_pypi_etl :: "('w \<Rightarrow> outcome \<times> 'w) \<Rightarrow> 'w \<Rightarrow> (outcome + bool) \<times> 'w" where
  "run_pypi_etl pypi_etl_main = run_phase pypi_etl_main"

definition run_load_public :: "('w \<Rightarrow> outcome \<times> 'w) \<Rightarrow> 'w \<Rightarrow> (outcome + bool) \<times> 'w" where
  "run_load_public load_public_main' = run_phase load_public_main'"

datatype phase = Phase1_github | Phase2_pypi | Phase3_load_public

text \<open>
  \<^verbatim>\<open>main()\<close> of the orchestrator: how it ends (\<^verbatim>\<open>sys.exit\<close> is \<open>SystemExit\<close>), the phases
  it started, and the world it leaves.
\<close>

definition main ::
  "('w \<Rightarrow> outcome \<times> 'w) \<Rightarrow> ('w \<Rightarrow> outcome \<times> 'w) \<Rightarrow> ('w \<Rightarrow> outcome \<times> 'w) \<Rightarrow> 'w
     \<Rightarrow> outcome \<times> phase list \<times> 'w" where
  "main github_main pypi_main public_main w =
     (case run_github_etl github_main w of
        (Inl x, w1) \<Rightarrow> (x, [Phase1_github], w1)
      | (Inr github_success, w1) \<Rightarrow>
     (case run_pypi_etl pypi_main w1 of
        (Inl x, w2) \<Rightarrow> (x, [Phase1_github, Phase2_pypi], w2)
      | (Inr pypi_success, w2) \<Rightarrow>
     (case run_load_public public_main w2 of
        (Inl x, w3) \<Rightarrow> (x, [Phase1_github, Phase2_pypi, Phase3_load_public], w3)
      | (Inr combine_success, w3) \<Rightarrow>
          (let overall_success = github_success \<and> pypi_success \<and> combine_success
           in (SystemExit (if overall_success then 0 else 1),
               [Phase1_github, Phase2_pypi, Phase3_load_public], w3)))))"

text \<open>
  The \<^verbatim>\<open>__main__\<close> block: the exit status of the process. \<^verbatim>\<open>KeyboardInterrupt\<close> and any
  \<^verbatim>\<open>Exception\<close> end in \<^verbatim>\<open>sys.exit(1)\<close>; of the code of a \<^verbatim>\<open>SystemExit\<close> the process
  status keeps the low eight bits. (A script with no such block, as \<^verbatim>\<open>load_public.py\<close>
  run by itself, ends with status 1 on an uncaught \<^verbatim>\<open>Exception\<close> too.)
\<close>

definition exit_code :: "outcome \<Rightarrow> nat" where
  "exit_code x =
     (case x of Returned \<Rightarrow> 0 | Raised e \<Rightarrow> 1 | SystemExit code \<Rightarrow> code mod 256
      | KeyboardInterrupt \<Rightarrow> 1)"

text \<open>
  The ways a module's \<^verbatim>\<open>main()\<close> can end that do not leave the orchestrator: it returns,
  or it raises an \<^verbatim>\<open>Exception\<close>, which \<^verbatim>\<open>except Exception\<close> catches.
\<close>

definition caught :: "outcome \<Rightarrow> bool" where
  "caught x = (case x of Returned \<Rightarrow> True | Raised e \<Rightarrow> True
               | SystemExit code \<Rightarrow> False | KeyboardInterrupt \<Rightarrow> False)"

text \<open>A \<^verbatim>\<open>SystemExit\<close> whose code the process reports as status 0.\<close>

definition exits_zero :: "outcome \<Rightarrow> bool" where
  "exits_zero x = (case x of Returned \<Rightarrow> False | Raised e \<Rightarrow> False
                   | SystemExit code \<Rightarrow> code mod 256 = 0 | KeyboardInterrupt \<Rightarrow> False)"

section \<open>\<^verbatim>\<open>github_repo_etl.py\<close>\<close>

text \<open>
  The GitHub API as the run sees it. \<^verbatim>\<open>requests.get(url, headers=headers)\<close> either
  raises or gives a response; a response has a status code and a JSON body. A JSON
  object is the association list of its members. \<open>clock\<close> is the reading of
  \<^verbatim>\<open>datetime.now()\<close> in the call for a repository URL.
\<close>

type_synonym json_object = "(string \<times> val) list"

datatype body = Object json_object | Array "json_object list"

record response =
  status_code :: nat
  json :: body

record github_api =
  requests_get :: "string \<Rightarrow> exn + response"
  clock :: "string \<Rightarrow> timestamp"

text \<open>
  \<^verbatim>\<open>d.get(k, default)\<close>. Of two members with one key, \<^verbatim>\<open>response.json()\<close> keeps the
  last.
\<close>

definition dict_get :: "json_object \<Rightarrow> string \<Rightarrow> val \<Rightarrow> val" where
  "dict_get d k dflt = (case map_of (rev d) k of None \<Rightarrow> dflt | Some v \<Rightarrow> v)"

text \<open>\<^verbatim>\<open>sum(x.get('total', 0) for x in xs)\<close>: adding a non-number raises \<^verbatim>\<open>TypeError\<close>.\<close>

fun sum_total :: "json_object list \<Rightarrow> exn + int" where
  "sum_total [] = Inr 0"
| "sum_total (x # xs) =
     (case dict_get x ''total'' (VInt 0) of
        VInt n \<Rightarrow> (case sum_total xs of Inl e \<Rightarrow> Inl e | Inr s \<Rightarrow> Inr (n + s))
      | VNull \<Rightarrow> Inl ''TypeError''
      | VStr v \<Rightarrow> Inl ''TypeError'')"

text \<open>
  The elements a statistics body is iterated as: an array's objects; an empty object
  has nothing to iterate; the keys of a non-empty object are strings, on which
  \<^verbatim>\<open>.get\<close> raises.
\<close>

definition elements :: "body \<Rightarrow> exn + json_object list" where
  "elements b =
     (case b of Array xs \<Rightarrow> Inr xs
      | Object [] \<Rightarrow> Inr []
      | Object (m # ms) \<Rightarrow> Inl ''AttributeError'')"

record metrics =
  library_name :: string
  owner :: string
  repo_name :: string
  stars :: val
  forks :: val
  watchers :: val
  open_issues :: val
  language :: val
  size_kb :: val
  created_at :: val
  updated_at :: val
  collected_at :: timestamp
  total_contributors :: val
  total_commits :: val
  commits_last_year :: val
  commits_last_month :: val

definition repo_url :: "string \<Rightarrow> string \<Rightarrow> string" where
  "repo_url owner' repo = ''https://api.github.com/repos/'' @ owner' @ ''/'' @ repo"

text \<open>The contributor statistics: \<open>(total_contributors, total_commits)\<close>.\<close>

definition contributor_stats :: "github_api \<Rightarrow> string \<Rightarrow> exn + val \<times> val" where
  "contributor_stats api url =
     (case requests_get api (url @ ''/stats/contributors'') of Inl e \<Rightarrow> Inl e
      | Inr response \<Rightarrow>
          if status_code response \<noteq> 200 then Inr (VNull, VNull)
          else (case elements (json response) of Inl e \<Rightarrow> Inl e
                | Inr contributors \<Rightarrow>
                    (case sum_total contributors of Inl e \<Rightarrow> Inl e
                     | Inr s \<Rightarrow> Inr (VInt (int (length contributors)), VInt s))))"

text \<open>The commit activity: \<open>(commits_last_year, commits_last_month)\<close>.\<close>

definition commit_activity_stats :: "github_api \<Rightarrow> string \<Rightarrow> exn + val \<times> val" where
  "commit_activity_stats api url =
     (case requests_get api (url @ ''/stats/commit_activity'') of Inl e \<Rightarrow> Inl e
      | Inr response \<Rightarrow>
          if status_code response \<noteq> 200 then Inr (VNull, VNull)
          else (case elements (json response) of Inl e \<Rightarrow> Inl e
                | Inr commit_activity \<Rightarrow>
                    (case sum_total commit_activity of Inl e \<Rightarrow> Inl e
                     | Inr year \<Rightarrow>
                         (let recent_weeks =
                                (if length commit_activity \<ge> 4
                                 then drop (length commit_activity - 4) commit_activity
                                 else commit_activity)
                          in case sum_total recent_weeks of Inl e \<Rightarrow> Inl e
                             | Inr month \<Rightarrow> Inr (VInt year, VInt month)))))"

text \<open>
  \<^verbatim>\<open>get_repo_metrics(library_name, owner, repo, github_token)\<close>: \<open>Inr None\<close> is the
  \<^verbatim>\<open>return None\<close> of a first response that is not 200.
\<close>

definition get_repo_metrics ::
  "github_api \<Rightarrow> string \<Rightarrow> string \<Rightarrow> string \<Rightarrow> string \<Rightarrow> exn + metrics option" where
  "get_repo_metrics api library_name' owner' repo github_token =
     (let url = repo_url owner' repo in
      case requests_get api url of Inl e \<Rightarrow> Inl e
      | Inr response \<Rightarrow>
          if status_code response \<noteq> 200 then Inr None
          else (case json response of Array xs \<Rightarrow> Inl ''AttributeError''
                | Object data \<Rightarrow>
                    (case contributor_stats api url of Inl e \<Rightarrow> Inl e
                     | Inr (contributors, commits) \<Rightarrow>
                    (case commit_activity_stats api url of Inl e \<Rightarrow> Inl e
                     | Inr (year, month) \<Rightarrow>
                         Inr (Some
                           \<lparr> library_name = library_name',
                             owner = owner',
                             repo_name = repo,
                             stars = dict_get data ''stargazers_count'' (VInt 0),
                             forks = dict_get data ''forks_count'' (VInt 0),
                             watchers = dict_get data ''watchers_count'' (VInt 0),
                             open_issues = dict_get data ''open_issues_count'' (VInt 0),
                             language = dict_get data ''language'' VNull,
                             size_kb = dict_get data ''size'' (VInt 0),
                             created_at = dict_get data ''created_at'' VNull,
                             updated_at = dict_get data ''updated_at'' VNull,
                             collected_at = clock api url,
                             total_contributors = contributors,
                             total_commits = commits,
                             commits_last_year = year,
                             commits_last_month = month \<rparr>)))))"

text \<open>The parameter tuple of the \<^verbatim>\<open>INSERT\<close> of \<^verbatim>\<open>insert_metrics\<close>, as the row it adds.\<close>

definition metrics_row :: "metrics \<Rightarrow> github_row" where
  "metrics_row m =
     \<lparr> gm_name = library_name m,
       gm_github_owner = owner m,
       gm_github_repository_name = repo_name m,
       gm_stars = stars m,
       gm_forks = forks m,
       gm_watchers = watchers m,
       gm_open_issues = open_issues m,
       gm_language = language m,
       gm_size_kb = size_kb m,
       gm_created_at = created_at m,
       gm_updated_at = updated_at m,
       gm_collected_at = collected_at m,
       gm_total_contributors = total_contributors m,
       gm_total_commits = total_commits m,
       gm_commits_last_year = commits_last_year m,
       gm_commits_last_month = commits_last_month m \<rparr>"

text \<open>The loop of \<^verbatim>\<open>insert_metrics\<close>, from the \<open>i\<close>-th row on.\<close>

fun execute_each :: "faults \<Rightarrow> nat \<Rightarrow> metrics list \<Rightarrow> conn \<Rightarrow> exn option \<times> conn" where
  "execute_each f i [] c = (None, c)"
| "execute_each f i (m # ms) c =
     (case raises f (At_row i) of Some e \<Rightarrow> (Some e, called Execute_insert c)
      | None \<Rightarrow>
          execute_each f (Suc i) ms
            (dml (\<lambda>w. w\<lparr>github_repo_metrics := github_repo_metrics w @ [metrics_row m]\<rparr>)
               (called Execute_insert c)))"

text \<open>
  \<^verbatim>\<open>insert_metrics(metrics_list, snowflake_config)\<close>: the exception it raises, if any,
  and the committed warehouse afterwards. There is no handler: an exception leaves the
  connection behind, and what it had not committed is lost.
\<close>

definition insert_metrics ::
  "session \<Rightarrow> faults \<Rightarrow> metrics list \<Rightarrow> warehouse \<Rightarrow> exn option \<times> warehouse" where
  "insert_metrics s f metrics_list w =
     (if metrics_list = [] then (None, w)
      else case raises f At_connect of Some e \<Rightarrow> (Some e, w) | None \<Rightarrow>
        (case execute_each f 0 metrics_list (connect s w) of
           (Some e, c) \<Rightarrow> (Some e, committed c)
         | (None, c) \<Rightarrow>
             (case raises f At_commit of Some e \<Rightarrow> (Some e, committed (called Commit c))
              | None \<Rightarrow>
                  (case close_both f (db_commit (called Commit c)) of
                     (r, c') \<Rightarrow> (r, committed c')))))"

record github_config =
  github_token :: string
  libraries :: "library list"
  snowflake :: "(string \<times> string option) list"

text \<open>\<^verbatim>\<open>github_repo_etl.load_config\<close>: \<open>Inl 1\<close> is \<^verbatim>\<open>exit(1)\<close>.\<close>

definition github_load_config :: "environment \<Rightarrow> nat + github_config" where
  "github_load_config env =
     (case config_json env of None \<Rightarrow> Inl 1 | Some config_data \<Rightarrow>
       (case getenv env ''GITHUB_TOKEN'' of None \<Rightarrow> Inl 1 | Some token \<Rightarrow>
          if token = [] then Inl 1
          else if \<not> list_all truthy (map snd (snowflake_section env)) then Inl 1
          else Inr \<lparr> github_token = token,
                     libraries = config_data,
                     snowflake = snowflake_section env \<rparr>))"

text \<open>
  The loop of \<^verbatim>\<open>github_repo_etl.main\<close> that fills \<^verbatim>\<open>all_metrics\<close>; \<^verbatim>\<open>if metrics:\<close> skips
  a \<^verbatim>\<open>None\<close>.
\<close>

fun all_metrics :: "github_api \<Rightarrow> string \<Rightarrow> library list \<Rightarrow> exn + metrics list" where
  "all_metrics api tok [] = Inr []"
| "all_metrics api tok (library # rest) =
     (case get_repo_metrics api (lib_name library) (lib_github_owner library)
             (lib_github_repo library) tok of
        Inl e \<Rightarrow> Inl e
      | Inr metrics \<Rightarrow>
          (case all_metrics api tok rest of Inl e \<Rightarrow> Inl e
           | Inr ms \<Rightarrow> Inr (case metrics of None \<Rightarrow> ms | Some m \<Rightarrow> m # ms)))"

definition github_repo_etl_main ::
  "environment \<Rightarrow> github_api \<Rightarrow> session \<Rightarrow> faults \<Rightarrow> warehouse \<Rightarrow> outcome \<times> warehouse" where
  "github_repo_etl_main env api s f w =
     (case github_load_config env of Inl code \<Rightarrow> (SystemExit code, w) | Inr config \<Rightarrow>
      (case all_metrics api (github_token config) (libraries config) of
         Inl e \<Rightarrow> (Raised e, w)
       | Inr ms \<Rightarrow>
           (case insert_metrics s f ms w of
              (Some e, w') \<Rightarrow> (Raised e, w')
            | (None, w') \<Rightarrow> (Returned, w'))))"

section \<open>Example data\<close>

text \<open>
  Snapshots with a name, a star count and a collection time, and with a name, an
  all-time count and a trailing-year count; the other columns are fixed.
\<close>

definition github_snapshot :: "string \<Rightarrow> int \<Rightarrow> timestamp \<Rightarrow> github_row" where
  "github_snapshot n s t =
     \<lparr> gm_name = n, gm_github_owner = ''owner'', gm_github_repository_name = n,
       gm_stars = VInt s, gm_forks = VInt 0, gm_watchers = VInt s, gm_open_issues = VInt 0,
       gm_language = VStr ''Python'', gm_size_kb = VInt 1, gm_created_at = VNull,
       gm_updated_at = VNull, gm_collected_at = t, gm_total_contributors = VNull,
       gm_total_commits = VNull, gm_commits_last_year = VNull, gm_commits_last_month = VNull \<rparr>"

definition pypi_snapshot :: "string \<Rightarrow> int \<Rightarrow> int \<Rightarrow> pypi_row" where
  "pypi_snapshot n a y =
     \<lparr> ps_name = n, ps_pypi_name = n, ps_total_downloads_alltime = a,
       ps_downloads_last_month = 1, ps_downloads_last_year = y \<rparr>"

text \<open>
  Library A was collected twice, B once; the registry knows A (two extractions) and C.
\<close>

definition example_github :: "github_row list" where
  "example_github =
     [github_snapshot ''B'' 7 1, github_snapshot ''A'' 5 1, github_snapshot ''A'' 10 2]"

definition example_pypi :: "pypi_row list" where
  "example_pypi =
     [pypi_snapshot ''A'' 2000 1000, pypi_snapshot ''A'' 2500 900, pypi_snapshot ''C'' 60 50]"

text \<open>Two snapshots of A with one recency marker, in each source.\<close>

definition tied_github :: "github_row list" where
  "tied_github = [github_snapshot ''A'' 5 1, github_snapshot ''A'' 10 1]"

definition tied_pypi :: "pypi_row list" where
  "tied_pypi = [pypi_snapshot ''A'' 2000 1000, pypi_snapshot ''A'' 2500 1000]"

text \<open>A warehouse whose published table holds one row from an earlier run.\<close>

definition example_warehouse :: warehouse where
  "example_warehouse =
     \<lparr> github_repo_metrics = example_github, pypi_download_stats = example_pypi,
       tech_metrics = [select_row (github_snapshot ''A'' 5 1, None)] \<rparr>"

text \<open>A configuration with two libraries and every environment variable set.\<close>

definition library_A :: library where
  "library_A = \<lparr> lib_name = ''A'', lib_github_owner = ''owner'', lib_github_repo = ''A'',
                 lib_pypi_package = ''A'' \<rparr>"

definition library_B :: library where
  "library_B = \<lparr> lib_name = ''B'', lib_github_owner = ''owner'', lib_github_repo = ''B'',
                 lib_pypi_package = ''B'' \<rparr>"

definition example_env :: environment where
  "example_env = \<lparr> config_json = Some [library_A, library_B], getenv = (\<lambda>k. Some ''set'') \<rparr>"

text \<open>The same environment with \<^verbatim>\<open>GITHUB_TOKEN\<close> unset.\<close>

definition example_env_no_token :: environment where
  "example_env_no_token =
     example_env\<lparr>getenv := (\<lambda>k. if k = ''GITHUB_TOKEN'' then None else Some ''set'')\<rparr>"

text \<open>
  An API that answers 404 for the repository of A, 200 for the repository of B, and 202
  for every statistics request.
\<close>

definition example_api :: github_api where
  "example_api =
     \<lparr> requests_get = (\<lambda>url.
         if url = repo_url ''owner'' ''A'' then Inr \<lparr> status_code = 404, json = Object [] \<rparr>
         else if url = repo_url ''owner'' ''B''
           then Inr \<lparr> status_code = 200, json = Object [(''stargazers_count'', VInt 7)] \<rparr>
         else Inr \<lparr> status_code = 202, json = Array [] \<rparr>),
       clock = (\<lambda>url. 3) \<rparr>"

section \<open>The Snapshot Resolver\<close>

lemma maximum_Max: "xs \<noteq> [] \<Longrightarrow> maximum xs = Some (Max (set xs))"
proof (cases xs)
  case Nil
  then show "xs \<noteq> [] \<Longrightarrow> ?thesis" by simp
next
  case (Cons a as)
  have "fold max as a = Max (set (a # as))" by (rule Max.set_eq_fold[symmetric])
  with Cons show ?thesis by simp
qed

lemma filter_key_distinct:
  "distinct ns \<Longrightarrow> n \<in> set ns \<Longrightarrow> filter (\<lambda>m. n = m) ns = [n]"
  by (induction ns) (auto simp: filter_empty_conv)

lemma concat_map_if: "concat (map (\<lambda>x. if P x then [x] else []) xs) = filter P xs"
  by (induction xs) auto

text \<open>A row meets at most the one group of its own name.\<close>

lemma join_groups:
  assumes "distinct ns" "n \<in> set ns"
  shows "filter (\<lambda>l. n = fst l \<and> c = snd l) (map (\<lambda>n. (n, f n)) ns)
         = (if c = f n then [(n, f n)] else [])"
proof -
  have "filter (\<lambda>l. n = fst l \<and> c = snd l) (map (\<lambda>n. (n, f n)) ns)
        = map (\<lambda>n. (n, f n)) (filter (\<lambda>m. c = f m) (filter (\<lambda>m. n = m) ns))"
    by (simp add: filter_map comp_def conj_commute)
  also have "filter (\<lambda>m. n = m) ns = [n]"
    using assms by (rule filter_key_distinct)
  finally show ?thesis by simp
qed

text \<open>Joining a relation back to its per-key aggregate is a filter of the relation.\<close>

lemma join_back_filter:
  "map fst (inner_join (\<lambda>x l. k x = fst l \<and> Some (v x) = snd l) xs
              (map (\<lambda>n. (n, f n)) (remdups (map k xs))))
   = filter (\<lambda>x. Some (v x) = f (k x)) xs"
proof -
  let ?grp = "map (\<lambda>n. (n, f n)) (remdups (map k xs))"
  have row: "map fst (map (Pair x) (filter (\<lambda>l. k x = fst l \<and> Some (v x) = snd l) ?grp))
             = (if Some (v x) = f (k x) then [x] else [])" if "x \<in> set xs" for x
  proof -
    from that have "k x \<in> set (remdups (map k xs))" by simp
    then have "filter (\<lambda>l. k x = fst l \<and> Some (v x) = snd l) ?grp
               = (if Some (v x) = f (k x) then [(k x, f (k x))] else [])"
      by (rule join_groups[OF distinct_remdups])
    then show ?thesis by simp
  qed
  have "map fst (inner_join (\<lambda>x l. k x = fst l \<and> Some (v x) = snd l) xs ?grp)
        = concat (map (\<lambda>x. map fst (map (Pair x)
            (filter (\<lambda>l. k x = fst l \<and> Some (v x) = snd l) ?grp))) xs)"
    by (simp add: inner_join_def map_concat comp_def)
  also have "\<dots> = concat (map (\<lambda>x. if Some (v x) = f (k x) then [x] else []) xs)"
    using row by (intro arg_cong[where f = concat] map_cong refl)
  finally show ?thesis by (simp only: concat_map_if)
qed

lemma latest_github_filter:
  "latest_github gm =
     filter (\<lambda>g. Some (gm_collected_at g) =
                  maximum (map gm_collected_at (filter (\<lambda>r. gm_name r = gm_name g) gm))) gm"
  unfolding latest_github_def github_latest_def
  by (rule join_back_filter
       [of gm_name gm_collected_at gm
           "\<lambda>n. maximum (map gm_collected_at (filter (\<lambda>r. gm_name r = n) gm))"])

lemma latest_pypi_filter:
  "latest_pypi ps =
     filter (\<lambda>p. Some (ps_downloads_last_year p) =
                  maximum (map ps_downloads_last_year (filter (\<lambda>r. ps_name r = ps_name p) ps))) ps"
  unfolding latest_pypi_def pypi_latest_def
  by (rule join_back_filter
       [of ps_name ps_downloads_last_year ps
           "\<lambda>n. maximum (map ps_downloads_last_year (filter (\<lambda>r. ps_name r = n) ps))"])

lemma latest_github_of_name:
  "filter (\<lambda>r. gm_name r = n) (latest_github gm) =
     filter (\<lambda>g. Some (gm_collected_at g) =
                  maximum (map gm_collected_at (filter (\<lambda>r. gm_name r = n) gm)))
       (filter (\<lambda>r. gm_name r = n) gm)"
  unfolding latest_github_filter filter_filter
  by (rule filter_cong) auto

lemma latest_pypi_of_name:
  "filter (\<lambda>r. ps_name r = n) (latest_pypi ps) =
     filter (\<lambda>p. Some (ps_downloads_last_year p) =
                  maximum (map ps_downloads_last_year (filter (\<lambda>r. ps_name r = n) ps)))
       (filter (\<lambda>r. ps_name r = n) ps)"
  unfolding latest_pypi_filter filter_filter
  by (rule filter_cong) auto

lemma at_most_one_of_distinct:
  "distinct (map c ys) \<Longrightarrow> length (filter (\<lambda>y. Some (c y) = m) ys) \<le> 1"
proof (induction ys)
  case Nil
  then show ?case by simp
next
  case (Cons y ys)
  show ?case
  proof (cases "Some (c y) = m")
    case True
    have "\<not> Some (c z) = m" if "z \<in> set ys" for z
    proof
      assume "Some (c z) = m"
      with True have "c y = c z" by auto
      with that have "c y \<in> set (map c ys)" by simp
      with Cons.prems show False by simp
    qed
    then have "filter (\<lambda>y. Some (c y) = m) ys = []"
      by (simp add: filter_empty_conv)
    with True show ?thesis by simp
  next
    case False
    with Cons show ?thesis by simp
  qed
qed

lemma group_maximum:
  assumes "x \<in> set xs"
  shows "maximum (map v (filter (\<lambda>r. k r = k x) xs)) = Some (Max (v ` {r \<in> set xs. k r = k x}))"
proof -
  from assms have "map v (filter (\<lambda>r. k r = k x) xs) \<noteq> []"
    by (auto simp: filter_empty_conv)
  then have "maximum (map v (filter (\<lambda>r. k r = k x) xs))
             = Some (Max (set (map v (filter (\<lambda>r. k r = k x) xs))))"
    by (rule maximum_Max)
  then show ?thesis by simp
qed

lemma group_max_attained:
  assumes "x \<in> set xs"
  shows "\<exists>r \<in> set xs. k r = k x \<and> v r = Max (v ` {r \<in> set xs. k r = k x})"
proof -
  let ?S = "v ` {r \<in> set xs. k r = k x}"
  have "finite ?S" by simp
  moreover from assms have "?S \<noteq> {}" by auto
  ultimately have "Max ?S \<in> ?S" by (rule Max_in)
  then show ?thesis by auto
qed

lemma group_max_ge:
  assumes "x \<in> set xs"
  shows "v x \<le> Max (v ` {r \<in> set xs. k r = k x})"
  using assms by (intro Max_ge) auto

lemma in_latest_github:
  "r \<in> set (latest_github gm) \<longleftrightarrow>
     r \<in> set gm \<and> gm_collected_at r = Max (gm_collected_at ` {x \<in> set gm. gm_name x = gm_name r})"
  unfolding latest_github_filter
  by (auto simp: group_maximum)

lemma in_latest_pypi:
  "r \<in> set (latest_pypi ps) \<longleftrightarrow>
     r \<in> set ps \<and> ps_downloads_last_year r =
        Max (ps_downloads_last_year ` {x \<in> set ps. ps_name x = ps_name r})"
  unfolding latest_pypi_filter
  by (auto simp: group_maximum)

lemma latest_github_example:
  "latest_github example_github = [github_snapshot ''B'' 7 1, github_snapshot ''A'' 10 2]"
  by (simp add: latest_github_filter example_github_def github_snapshot_def)

lemma latest_pypi_example:
  "latest_pypi example_pypi = [pypi_snapshot ''A'' 2000 1000, pypi_snapshot ''C'' 60 50]"
  by (simp add: latest_pypi_filter example_pypi_def pypi_snapshot_def)

lemma is_group_max:
  assumes "x \<in> set xs"
  shows "Some (v x) = maximum (map v (filter (\<lambda>r. k r = k x) xs)) \<longleftrightarrow>
         (\<forall>y \<in> set xs. k y = k x \<longrightarrow> v y \<le> v x)"
proof -
  let ?S = "v ` {r \<in> set xs. k r = k x}"
  have fin: "finite ?S" and ne: "?S \<noteq> {}" and mem: "v x \<in> ?S"
    using assms by auto
  have "Some (v x) = maximum (map v (filter (\<lambda>r. k r = k x) xs)) \<longleftrightarrow> v x = Max ?S"
    by (simp add: group_maximum[OF assms])
  also have "\<dots> \<longleftrightarrow> (\<forall>a \<in> ?S. a \<le> v x)"
  proof
    assume "v x = Max ?S"
    then show "\<forall>a \<in> ?S. a \<le> v x" using fin by (metis Max_ge)
  next
    assume "\<forall>a \<in> ?S. a \<le> v x"
    then have "Max ?S = v x" using fin mem by (intro Max_eqI) blast+
    then show "v x = Max ?S" by simp
  qed
  also have "\<dots> \<longleftrightarrow> (\<forall>y \<in> set xs. k y = k x \<longrightarrow> v y \<le> v x)"
    by blast
  finally show ?thesis .
qed

lemma latest_github_of_name_max:
  "filter (\<lambda>r. gm_name r = n) (latest_github gm) =
     filter (\<lambda>r. gm_name r = n \<and>
                 (\<forall>x \<in> set gm. gm_name x = n \<longrightarrow> gm_collected_at x \<le> gm_collected_at r)) gm"
proof -
  have "filter (\<lambda>r. gm_name r = n) (latest_github gm) =
        filter (\<lambda>r. Some (gm_collected_at r) =
                      maximum (map gm_collected_at (filter (\<lambda>x. gm_name x = gm_name r) gm)) \<and>
                    gm_name r = n) gm"
    by (simp only: latest_github_filter filter_filter)
  also have "\<dots> = filter (\<lambda>r. gm_name r = n \<and>
                 (\<forall>x \<in> set gm. gm_name x = n \<longrightarrow> gm_collected_at x \<le> gm_collected_at r)) gm"
  proof (rule filter_cong[OF refl])
    fix r assume "r \<in> set gm"
    from is_group_max[OF this, of gm_collected_at gm_name]
    have eq: "(Some (gm_collected_at r) =
                 maximum (map gm_collected_at (filter (\<lambda>x. gm_name x = gm_name r) gm))) =
              (\<forall>y \<in> set gm. gm_name y = gm_name r \<longrightarrow> gm_collected_at y \<le> gm_collected_at r)" .
    show "(Some (gm_collected_at r) =
             maximum (map gm_collected_at (filter (\<lambda>x. gm_name x = gm_name r) gm)) \<and>
           gm_name r = n) =
          (gm_name r = n \<and>
             (\<forall>x \<in> set gm. gm_name x = n \<longrightarrow> gm_collected_at x \<le> gm_collected_at r))"
    proof (cases "gm_name r = n")
      case True
      with eq show ?thesis by (simp only: True simp_thms)
    next
      case False
      then show ?thesis by simp
    qed
  qed
  finally show ?thesis .
qed

lemma latest_pypi_of_name_max:
  "filter (\<lambda>r. ps_name r = n) (latest_pypi ps) =
     filter (\<lambda>r. ps_name r = n \<and>
                 (\<forall>x \<in> set ps. ps_name x = n \<longrightarrow>
                    ps_downloads_last_year x \<le> ps_downloads_last_year r)) ps"
proof -
  have "filter (\<lambda>r. ps_name r = n) (latest_pypi ps) =
        filter (\<lambda>r. Some (ps_downloads_last_year r) =
                      maximum (map ps_downloads_last_year (filter (\<lambda>x. ps_name x = ps_name r) ps)) \<and>
                    ps_name r = n) ps"
    by (simp only: latest_pypi_filter filter_filter)
  also have "\<dots> = filter (\<lambda>r. ps_name r = n \<and>
                 (\<forall>x \<in> set ps. ps_name x = n \<longrightarrow>
                    ps_downloads_last_year x \<le> ps_downloads_last_year r)) ps"
  proof (rule filter_cong[OF refl])
    fix r assume "r \<in> set ps"
    from is_group_max[OF this, of ps_downloads_last_year ps_name]
    have eq: "(Some (ps_downloads_last_year r) =
                 maximum (map ps_downloads_last_year (filter (\<lambda>x. ps_name x = ps_name r) ps))) =
              (\<forall>y \<in> set ps. ps_name y = ps_name r \<longrightarrow>
                  ps_downloads_last_year y \<le> ps_downloads_last_year r)" .
    show "(Some (ps_downloads_last_year r) =
             maximum (map ps_downloads_last_year (filter (\<lambda>x. ps_name x = ps_name r) ps)) \<and>
           ps_name r = n) =
          (ps_name r = n \<and>
             (\<forall>x \<in> set ps. ps_name x = n \<longrightarrow>
                ps_downloads_last_year x \<le> ps_downloads_last_year r))"
    proof (cases "ps_name r = n")
      case True
      with eq show ?thesis by (simp only: True simp_thms)
    next
      case False
      then show ?thesis by simp
    qed
  qed
  finally show ?thesis .
qed

text \<open>
  In particular a common table expression holds at most one row for an identity whose
  snapshot rows carry pairwise different recency markers.
\<close>

lemma latest_at_most_one_if_distinct:
  assumes "distinct (map gm_collected_at (filter (\<lambda>r. gm_name r = n) gm))"
      and "distinct (map ps_downloads_last_year (filter (\<lambda>r. ps_name r = n) ps))"
  shows "length (filter (\<lambda>r. gm_name r = n) (latest_github gm)) \<le> 1 \<and>
         length (filter (\<lambda>r. ps_name r = n) (latest_pypi ps)) \<le> 1"
proof
  show "length (filter (\<lambda>r. gm_name r = n) (latest_github gm)) \<le> 1"
    unfolding latest_github_of_name by (rule at_most_one_of_distinct[OF assms(1)])
  show "length (filter (\<lambda>r. ps_name r = n) (latest_pypi ps)) \<le> 1"
    unfolding latest_pypi_of_name by (rule at_most_one_of_distinct[OF assms(2)])
qed

text \<open>
  C2, as the code has it. Each common table expression keeps every row that attains its
  identity's maximum recency marker (\<^verbatim>\<open>collected_at\<close> on the GitHub side,
  \<^verbatim>\<open>downloads_last_year\<close> on the registry side). So it holds at most one row for an
  identity when at most one snapshot row of that identity carries the identity's
  maximum marker.
\<close>

theorem resolver_at_most_one_row:
  assumes "length (filter (\<lambda>r. gm_name r = n \<and>
             (\<forall>x \<in> set gm. gm_name x = n \<longrightarrow> gm_collected_at x \<le> gm_collected_at r)) gm) \<le> 1"
      and "length (filter (\<lambda>r. ps_name r = n \<and>
             (\<forall>x \<in> set ps. ps_name x = n \<longrightarrow>
                ps_downloads_last_year x \<le> ps_downloads_last_year r)) ps) \<le> 1"
  shows "length (filter (\<lambda>r. gm_name r = n) (latest_github gm)) \<le> 1 \<and>
         length (filter (\<lambda>r. ps_name r = n) (latest_pypi ps)) \<le> 1"
  using assms by (simp only: latest_github_of_name_max latest_pypi_of_name_max)

theorem resolver_at_most_one_row_witness:
  "length (filter (\<lambda>r. gm_name r = ''A'' \<and>
      (\<forall>x \<in> set example_github. gm_name x = ''A'' \<longrightarrow> gm_collected_at x \<le> gm_collected_at r))
      example_github) \<le> 1 \<and>
   length (filter (\<lambda>r. ps_name r = ''A'' \<and>
      (\<forall>x \<in> set example_pypi. ps_name x = ''A'' \<longrightarrow>
         ps_downloads_last_year x \<le> ps_downloads_last_year r)) example_pypi) \<le> 1 \<and>
   length (filter (\<lambda>r. gm_name r = ''A'') (latest_github example_github)) \<le> 1 \<and>
   length (filter (\<lambda>r. ps_name r = ''A'') (latest_pypi example_pypi)) \<le> 1"
proof -
  have g: "length (filter (\<lambda>r. gm_name r = ''A'' \<and>
      (\<forall>x \<in> set example_github. gm_name x = ''A'' \<longrightarrow> gm_collected_at x \<le> gm_collected_at r))
      example_github) \<le> 1"
    by (simp add: example_github_def github_snapshot_def)
  have p: "length (filter (\<lambda>r. ps_name r = ''A'' \<and>
      (\<forall>x \<in> set example_pypi. ps_name x = ''A'' \<longrightarrow>
         ps_downloads_last_year x \<le> ps_downloads_last_year r)) example_pypi) \<le> 1"
    by (simp add: example_pypi_def pypi_snapshot_def)
  from resolver_at_most_one_row[OF g p] g p show ?thesis by blast
qed

text \<open>
  C2, as stated, fails: two snapshot rows of A that tie on the recency marker are both
  in the Resolver's output, on the GitHub side and on the registry side.
\<close>

theorem resolver_tied_rows_counterexample:
  "\<not> length (filter (\<lambda>r. gm_name r = ''A'') (latest_github tied_github)) \<le> 1 \<and>
   \<not> length (filter (\<lambda>r. ps_name r = ''A'') (latest_pypi tied_pypi)) \<le> 1 \<and>
   latest_github tied_github = [github_snapshot ''A'' 5 1, github_snapshot ''A'' 10 1] \<and>
   latest_pypi tied_pypi = [pypi_snapshot ''A'' 2000 1000, pypi_snapshot ''A'' 2500 1000]"
  by (simp add: latest_github_filter latest_pypi_filter tied_github_def tied_pypi_def
        github_snapshot_def pypi_snapshot_def)

text \<open>
  C3. For an identity present in the GitHub snapshot history, \<^verbatim>\<open>latest_github\<close> selects
  some row of it; every row it selects for the identity is a row of the history whose
  \<^verbatim>\<open>collected_at\<close> is the maximum over the identity's rows (so no row of the identity
  is newer); and a row that has a newer row of its identity is not selected.
\<close>

theorem latest_github_max_collected_at:
  assumes "g \<in> set gm"
  shows "(\<exists>r \<in> set (latest_github gm). gm_name r = gm_name g) \<and>
         (\<forall>r \<in> set (latest_github gm). gm_name r = gm_name g \<longrightarrow>
              r \<in> set gm \<and>
              gm_collected_at r = Max (gm_collected_at ` {x \<in> set gm. gm_name x = gm_name g}) \<and>
              gm_collected_at g \<le> gm_collected_at r) \<and>
         (\<forall>g' \<in> set gm. gm_name g' = gm_name g \<and> gm_collected_at g < gm_collected_at g' \<longrightarrow>
              g \<notin> set (latest_github gm))"
proof (intro conjI ballI impI)
  from group_max_attained[OF assms, of gm_name gm_collected_at]
  obtain r where "r \<in> set gm" "gm_name r = gm_name g"
    "gm_collected_at r = Max (gm_collected_at ` {x \<in> set gm. gm_name x = gm_name g})"
    by blast
  then show "\<exists>r \<in> set (latest_github gm). gm_name r = gm_name g"
    by (auto simp: in_latest_github)
next
  fix r assume "r \<in> set (latest_github gm)" "gm_name r = gm_name g"
  then show "r \<in> set gm"
    and m: "gm_collected_at r = Max (gm_collected_at ` {x \<in> set gm. gm_name x = gm_name g})"
    by (simp_all add: in_latest_github)
  from group_max_ge[OF assms, of gm_collected_at gm_name] m
  show "gm_collected_at g \<le> gm_collected_at r" by simp
next
  fix g' assume g': "g' \<in> set gm"
    "gm_name g' = gm_name g \<and> gm_collected_at g < gm_collected_at g'"
  show "g \<notin> set (latest_github gm)"
  proof
    assume "g \<in> set (latest_github gm)"
    then have "gm_collected_at g = Max (gm_collected_at ` {x \<in> set gm. gm_name x = gm_name g})"
      by (simp add: in_latest_github)
    moreover from g'
    have "gm_collected_at g' \<le> Max (gm_collected_at ` {x \<in> set gm. gm_name x = gm_name g})"
      by (intro Max_ge) auto
    ultimately show False using g' by simp
  qed
qed

theorem latest_github_max_collected_at_witness:
  "github_snapshot ''A'' 5 1 \<in> set example_github \<and>
   (\<exists>r \<in> set (latest_github example_github). gm_name r = gm_name (github_snapshot ''A'' 5 1)) \<and>
   github_snapshot ''A'' 5 1 \<notin> set (latest_github example_github)"
proof -
  have old: "github_snapshot ''A'' 5 1 \<in> set example_github"
    and new: "github_snapshot ''A'' 10 2 \<in> set example_github"
    by (simp_all add: example_github_def)
  have newer: "gm_name (github_snapshot ''A'' 10 2) = gm_name (github_snapshot ''A'' 5 1) \<and>
               gm_collected_at (github_snapshot ''A'' 5 1) < gm_collected_at (github_snapshot ''A'' 10 2)"
    by (simp add: github_snapshot_def)
  from latest_github_max_collected_at[OF old] new newer old show ?thesis by blast
qed

text \<open>
  C4. For an identity present in the registry snapshot history, \<^verbatim>\<open>latest_pypi\<close> selects
  some row of it, and a row of the identity is selected exactly when its
  \<^verbatim>\<open>downloads_last_year\<close> is the maximum over the identity's rows: the name and that
  count decide, and a registry row carries no timestamp.
\<close>

theorem latest_pypi_max_downloads:
  assumes "p \<in> set ps"
  shows "(\<exists>r \<in> set (latest_pypi ps). ps_name r = ps_name p) \<and>
         (\<forall>r \<in> set ps. ps_name r = ps_name p \<longrightarrow>
              (r \<in> set (latest_pypi ps) \<longleftrightarrow>
               ps_downloads_last_year r =
                 Max (ps_downloads_last_year ` {x \<in> set ps. ps_name x = ps_name p}))) \<and>
         (\<forall>r \<in> set (latest_pypi ps). ps_name r = ps_name p \<longrightarrow>
              r \<in> set ps \<and> ps_downloads_last_year p \<le> ps_downloads_last_year r)"
proof (intro conjI ballI impI)
  from group_max_attained[OF assms, of ps_name ps_downloads_last_year]
  obtain r where "r \<in> set ps" "ps_name r = ps_name p"
    "ps_downloads_last_year r = Max (ps_downloads_last_year ` {x \<in> set ps. ps_name x = ps_name p})"
    by blast
  then show "\<exists>r \<in> set (latest_pypi ps). ps_name r = ps_name p"
    by (auto simp: in_latest_pypi)
next
  fix r assume "r \<in> set ps" "ps_name r = ps_name p"
  then show "r \<in> set (latest_pypi ps) \<longleftrightarrow>
               ps_downloads_last_year r =
                 Max (ps_downloads_last_year ` {x \<in> set ps. ps_name x = ps_name p})"
    by (simp add: in_latest_pypi)
next
  fix r assume r: "r \<in> set (latest_pypi ps)" "ps_name r = ps_name p"
  then show "r \<in> set ps" by (simp add: in_latest_pypi)
  from r have "ps_downloads_last_year r =
                 Max (ps_downloads_last_year ` {x \<in> set ps. ps_name x = ps_name p})"
    by (simp add: in_latest_pypi)
  with group_max_ge[OF assms, of ps_downloads_last_year ps_name]
  show "ps_downloads_last_year p \<le> ps_downloads_last_year r" by simp
qed

theorem latest_pypi_max_downloads_witness:
  "pypi_snapshot ''A'' 2500 900 \<in> set example_pypi \<and>
   (\<exists>r \<in> set (latest_pypi example_pypi). ps_name r = ps_name (pypi_snapshot ''A'' 2500 900)) \<and>
   ps_downloads_last_year (pypi_snapshot ''A'' 2500 900)
     \<le> ps_downloads_last_year (pypi_snapshot ''A'' 2000 1000)"
proof -
  have p: "pypi_snapshot ''A'' 2500 900 \<in> set example_pypi"
    by (simp add: example_pypi_def)
  have sel: "pypi_snapshot ''A'' 2000 1000 \<in> set (latest_pypi example_pypi)"
    by (simp add: latest_pypi_example)
  have same: "ps_name (pypi_snapshot ''A'' 2000 1000) = ps_name (pypi_snapshot ''A'' 2500 900)"
    by (simp add: pypi_snapshot_def)
  from latest_pypi_max_downloads[OF p] sel same p show ?thesis by blast
qed

section \<open>The Consolidator\<close>

lemma left_join_row:
  "set (case filter P ys of [] \<Rightarrow> [(x, None)] | m # ms \<Rightarrow> map (\<lambda>y. (x, Some y)) (m # ms))
   = {(x, Some y) | y. y \<in> set ys \<and> P y} \<union> {(x, None) | u::unit. \<forall>y \<in> set ys. \<not> P y}"
proof (cases "filter P ys")
  case Nil
  then have "\<forall>y \<in> set ys. \<not> P y" by (simp add: filter_empty_conv)
  with Nil show ?thesis by auto
next
  case (Cons m ms)
  then have "m \<in> set (filter P ys)" by simp
  then have ex: "\<exists>y \<in> set ys. P y" by auto
  have "set (map (\<lambda>y. (x, Some y)) (m # ms)) = {(x, Some y) | y. y \<in> set ys \<and> P y}"
    unfolding Cons[symmetric] by auto
  with Cons ex show ?thesis by auto
qed

lemma set_left_join:
  "set (left_join on xs ys) =
     {(x, Some y) | x y. x \<in> set xs \<and> y \<in> set ys \<and> on x y} \<union>
     {(x, None) | x. x \<in> set xs \<and> (\<forall>y \<in> set ys. \<not> on x y)}"
  unfolding left_join_def set_concat set_map image_image left_join_row
  by auto

text \<open>
  The rows of the Consolidator's output, whatever its inputs: a GitHub-side row with
  each registry-side row of its name, or with nulls when there is none.
\<close>

lemma set_consolidate:
  "set (consolidate lg lp) =
     {select_row (g, Some p) | g p. g \<in> set lg \<and> p \<in> set lp \<and> gm_name g = ps_name p} \<union>
     {select_row (g, None) | g. g \<in> set lg \<and> (\<forall>p \<in> set lp. gm_name g \<noteq> ps_name p)}"
  unfolding consolidate_def set_map set_sort set_left_join
  by (auto simp: image_Un image_Collect)

lemma tm_name_select_row: "tm_name (select_row gp) = gm_name (fst gp)"
  by (cases gp) (simp add: select_row_def)

lemma filter_consolidate:
  "filter (\<lambda>t. tm_name t = n) (consolidate lg lp) =
     map select_row (sort_key (\<lambda>gp. gm_name (fst gp))
       (filter (\<lambda>gp. gm_name (fst gp) = n) (left_join (\<lambda>g p. gm_name g = ps_name p) lg lp)))"
  by (simp add: consolidate_def filter_map comp_def tm_name_select_row filter_sort)

lemma filter_left_join:
  "filter (\<lambda>gp. P (fst gp)) (left_join on xs ys) = left_join on (filter P xs) ys"
  by (induction xs) (auto simp: left_join_def split: list.splits)

text \<open>The output rows of one name come from the left rows of that name.\<close>

lemma consolidate_of_name:
  "filter (\<lambda>t. tm_name t = n) (consolidate lg lp) =
     consolidate (filter (\<lambda>g. gm_name g = n) lg) lp"
proof -
  have "filter (\<lambda>t. tm_name t = n) (consolidate lg lp) =
        map select_row (sort_key (\<lambda>gp. gm_name (fst gp))
          (filter (\<lambda>gp. gm_name (fst gp) = n) (left_join (\<lambda>g p. gm_name g = ps_name p) lg lp)))"
    by (rule filter_consolidate)
  also have "filter (\<lambda>gp. gm_name (fst gp) = n) (left_join (\<lambda>g p. gm_name g = ps_name p) lg lp)
             = left_join (\<lambda>g p. gm_name g = ps_name p) (filter (\<lambda>g. gm_name g = n) lg) lp"
    by (rule filter_left_join[of "\<lambda>g. gm_name g = n"])
  finally show ?thesis by (simp only: consolidate_def)
qed

lemma filter_key_unique:
  assumes "distinct (map k ys)" "y \<in> set ys"
  shows "filter (\<lambda>z. k y = k z) ys = [y]"
  using assms
proof (induction ys)
  case Nil
  then show ?case by simp
next
  case (Cons a ys)
  show ?case
  proof (cases "a = y")
    case True
    with Cons.prems have "\<forall>z \<in> set ys. k y \<noteq> k z" by force
    then have "filter (\<lambda>z. k y = k z) ys = []" by (simp add: filter_empty_conv)
    with True show ?thesis by simp
  next
    case False
    with Cons.prems have y: "y \<in> set ys" by simp
    then have "k y \<in> set (map k ys)" by simp
    with Cons.prems have "k y \<noteq> k a" by auto
    with Cons y show ?thesis by simp
  qed
qed

text \<open>
  C5. When each latest set is a mapping (one row per identity), the Consolidator emits,
  for every GitHub-side identity, exactly one row. With a registry-side row of that
  identity, the row holds the fifteen GitHub-side columns of the one and the four
  registry-side columns of the other, each copied as it is; with none, it holds the
  GitHub-side columns and null in the four registry-sourced columns. An identity with
  no GitHub-side row has no output row.
\<close>

theorem consolidate_left_outer_join:
  assumes "distinct (map gm_name lg)" and "distinct (map ps_name lp)"
  shows "(\<forall>g \<in> set lg. \<forall>p \<in> set lp. ps_name p = gm_name g \<longrightarrow>
            filter (\<lambda>t. tm_name t = gm_name g) (consolidate lg lp) =
              [\<lparr> tm_name = gm_name g,
                 tm_github_owner = gm_github_owner g,
                 tm_github_repository_name = gm_github_repository_name g,
                 tm_pypi_name = Some (ps_pypi_name p),
                 tm_language = gm_language g,
                 tm_stars = gm_stars g,
                 tm_forks = gm_forks g,
                 tm_watchers = gm_watchers g,
                 tm_open_issues = gm_open_issues g,
                 tm_size_kb = gm_size_kb g,
                 tm_created_at = gm_created_at g,
                 tm_updated_at = gm_updated_at g,
                 tm_total_contributors = gm_total_contributors g,
                 tm_total_commits = gm_total_commits g,
                 tm_total_downloads_alltime = Some (ps_total_downloads_alltime p),
                 tm_commits_last_year = gm_commits_last_year g,
                 tm_downloads_last_year = Some (ps_downloads_last_year p),
                 tm_commits_last_month = gm_commits_last_month g,
                 tm_downloads_last_month = Some (ps_downloads_last_month p) \<rparr>]) \<and>
         (\<forall>g \<in> set lg. (\<forall>p \<in> set lp. ps_name p \<noteq> gm_name g) \<longrightarrow>
            filter (\<lambda>t. tm_name t = gm_name g) (consolidate lg lp) =
              [\<lparr> tm_name = gm_name g,
                 tm_github_owner = gm_github_owner g,
                 tm_github_repository_name = gm_github_repository_name g,
                 tm_pypi_name = None,
                 tm_language = gm_language g,
                 tm_stars = gm_stars g,
                 tm_forks = gm_forks g,
                 tm_watchers = gm_watchers g,
                 tm_open_issues = gm_open_issues g,
                 tm_size_kb = gm_size_kb g,
                 tm_created_at = gm_created_at g,
                 tm_updated_at = gm_updated_at g,
                 tm_total_contributors = gm_total_contributors g,
                 tm_total_commits = gm_total_commits g,
                 tm_total_downloads_alltime = None,
                 tm_commits_last_year = gm_commits_last_year g,
                 tm_downloads_last_year = None,
                 tm_commits_last_month = gm_commits_last_month g,
                 tm_downloads_last_month = None \<rparr>]) \<and>
         (\<forall>n. n \<notin> gm_name ` set lg \<longrightarrow>
            filter (\<lambda>t. tm_name t = n) (consolidate lg lp) = [])"
proof (intro conjI ballI impI allI)
  fix g p assume g: "g \<in> set lg" and p: "p \<in> set lp" and eq: "ps_name p = gm_name g"
  have "filter (\<lambda>x. gm_name x = gm_name g) lg = [g]"
    using filter_key_unique[OF assms(1) g] by (simp add: eq_commute)
  moreover have "filter (\<lambda>z. gm_name g = ps_name z) lp = [p]"
    using filter_key_unique[OF assms(2) p] eq by simp
  ultimately have "filter (\<lambda>t. tm_name t = gm_name g) (consolidate lg lp) = [select_row (g, Some p)]"
    unfolding consolidate_of_name by (simp add: consolidate_def left_join_def)
  then show "filter (\<lambda>t. tm_name t = gm_name g) (consolidate lg lp) =
              [\<lparr> tm_name = gm_name g,
                 tm_github_owner = gm_github_owner g,
                 tm_github_repository_name = gm_github_repository_name g,
                 tm_pypi_name = Some (ps_pypi_name p),
                 tm_language = gm_language g,
                 tm_stars = gm_stars g,
                 tm_forks = gm_forks g,
                 tm_watchers = gm_watchers g,
                 tm_open_issues = gm_open_issues g,
                 tm_size_kb = gm_size_kb g,
                 tm_created_at = gm_created_at g,
                 tm_updated_at = gm_updated_at g,
                 tm_total_contributors = gm_total_contributors g,
                 tm_total_commits = gm_total_commits g,
                 tm_total_downloads_alltime = Some (ps_total_downloads_alltime p),
                 tm_commits_last_year = gm_commits_last_year g,
                 tm_downloads_last_year = Some (ps_downloads_last_year p),
                 tm_commits_last_month = gm_commits_last_month g,
                 tm_downloads_last_month = Some (ps_downloads_last_month p) \<rparr>]"
    by (simp add: select_row_def)
next
  fix g assume g: "g \<in> set lg" and none: "\<forall>p \<in> set lp. ps_name p \<noteq> gm_name g"
  have "filter (\<lambda>x. gm_name x = gm_name g) lg = [g]"
    using filter_key_unique[OF assms(1) g] by (simp add: eq_commute)
  moreover from none have "filter (\<lambda>z. gm_name g = ps_name z) lp = []"
    by (auto simp: filter_empty_conv)
  ultimately have "filter (\<lambda>t. tm_name t = gm_name g) (consolidate lg lp) = [select_row (g, None)]"
    unfolding consolidate_of_name by (simp add: consolidate_def left_join_def)
  then show "filter (\<lambda>t. tm_name t = gm_name g) (consolidate lg lp) =
              [\<lparr> tm_name = gm_name g,
                 tm_github_owner = gm_github_owner g,
                 tm_github_repository_name = gm_github_repository_name g,
                 tm_pypi_name = None,
                 tm_language = gm_language g,
                 tm_stars = gm_stars g,
                 tm_forks = gm_forks g,
                 tm_watchers = gm_watchers g,
                 tm_open_issues = gm_open_issues g,
                 tm_size_kb = gm_size_kb g,
                 tm_created_at = gm_created_at g,
                 tm_updated_at = gm_updated_at g,
                 tm_total_contributors = gm_total_contributors g,
                 tm_total_commits = gm_total_commits g,
                 tm_total_downloads_alltime = None,
                 tm_commits_last_year = gm_commits_last_year g,
                 tm_downloads_last_year = None,
                 tm_commits_last_month = gm_commits_last_month g,
                 tm_downloads_last_month = None \<rparr>]"
    by (simp add: select_row_def)
next
  fix n assume "n \<notin> gm_name ` set lg"
  then have "filter (\<lambda>x. gm_name x = n) lg = []"
    by (auto simp: filter_empty_conv)
  then show "filter (\<lambda>t. tm_name t = n) (consolidate lg lp) = []"
    unfolding consolidate_of_name by (simp add: consolidate_def left_join_def)
qed

text \<open>
  On the example: A is published with the stars of its newer GitHub snapshot and the
  counts of its selected registry snapshot, B with null registry columns, and C, which
  only the registry knows, not at all.
\<close>

theorem consolidate_left_outer_join_witness:
  "distinct (map gm_name (latest_github example_github)) \<and>
   distinct (map ps_name (latest_pypi example_pypi)) \<and>
   map (\<lambda>t. (tm_name t, tm_stars t, tm_pypi_name t, tm_total_downloads_alltime t,
              tm_downloads_last_year t, tm_downloads_last_month t))
     (filter (\<lambda>t. tm_name t = ''A'')
        (consolidate (latest_github example_github) (latest_pypi example_pypi)))
     = [(''A'', VInt 10, Some ''A'', Some 2000, Some 1000, Some 1)] \<and>
   map (\<lambda>t. (tm_name t, tm_stars t, tm_pypi_name t, tm_total_downloads_alltime t,
              tm_downloads_last_year t, tm_downloads_last_month t))
     (filter (\<lambda>t. tm_name t = ''B'')
        (consolidate (latest_github example_github) (latest_pypi example_pypi)))
     = [(''B'', VInt 7, None, None, None, None)] \<and>
   filter (\<lambda>t. tm_name t = ''C'')
      (consolidate (latest_github example_github) (latest_pypi example_pypi)) = []"
proof -
  let ?lg = "latest_github example_github" and ?lp = "latest_pypi example_pypi"
  have dg: "distinct (map gm_name ?lg)"
    by (simp add: latest_github_example github_snapshot_def)
  have dp: "distinct (map ps_name ?lp)"
    by (simp add: latest_pypi_example pypi_snapshot_def)
  note join = consolidate_left_outer_join[OF dg dp]
  have a: "github_snapshot ''A'' 10 2 \<in> set ?lg" "pypi_snapshot ''A'' 2000 1000 \<in> set ?lp"
          "ps_name (pypi_snapshot ''A'' 2000 1000) = gm_name (github_snapshot ''A'' 10 2)"
    by (simp_all add: latest_github_example latest_pypi_example github_snapshot_def pypi_snapshot_def)
  have b: "github_snapshot ''B'' 7 1 \<in> set ?lg"
          "\<forall>p \<in> set ?lp. ps_name p \<noteq> gm_name (github_snapshot ''B'' 7 1)"
    by (simp_all add: latest_github_example latest_pypi_example github_snapshot_def pypi_snapshot_def)
  have c: "''C'' \<notin> gm_name ` set ?lg"
    by (simp add: latest_github_example github_snapshot_def)
  from join[THEN conjunct1, rule_format, OF a]
  have "map (\<lambda>t. (tm_name t, tm_stars t, tm_pypi_name t, tm_total_downloads_alltime t,
              tm_downloads_last_year t, tm_downloads_last_month t))
          (filter (\<lambda>t. tm_name t = ''A'') (consolidate ?lg ?lp))
        = [(''A'', VInt 10, Some ''A'', Some 2000, Some 1000, Some 1)]"
    by (simp add: github_snapshot_def pypi_snapshot_def)
  moreover from join[THEN conjunct2, THEN conjunct1, THEN bspec, OF b(1), THEN mp, OF b(2)]
  have "map (\<lambda>t. (tm_name t, tm_stars t, tm_pypi_name t, tm_total_downloads_alltime t,
              tm_downloads_last_year t, tm_downloads_last_month t))
          (filter (\<lambda>t. tm_name t = ''B'') (consolidate ?lg ?lp))
        = [(''B'', VInt 7, None, None, None, None)]"
    by (simp add: github_snapshot_def)
  moreover from join[THEN conjunct2, THEN conjunct2, rule_format, OF c]
  have "filter (\<lambda>t. tm_name t = ''C'') (consolidate ?lg ?lp) = []" .
  ultimately show ?thesis using dg dp by simp
qed

text \<open>
  C7. The Consolidator's output is sorted by library identity, ascending: of any two
  consecutive rows the first has the smaller or equal name.
\<close>

theorem consolidate_ordered_by_name:
  "sorted (map tm_name (consolidate lg lp)) \<and>
   (\<forall>i. Suc i < length (consolidate lg lp) \<longrightarrow>
        tm_name (consolidate lg lp ! i) \<le> tm_name (consolidate lg lp ! Suc i))"
proof -
  have "map tm_name (consolidate lg lp) =
        map (\<lambda>gp. gm_name (fst gp))
          (sort_key (\<lambda>gp. gm_name (fst gp)) (left_join (\<lambda>g p. gm_name g = ps_name p) lg lp))"
    by (simp add: consolidate_def comp_def tm_name_select_row)
  then have s: "sorted (map tm_name (consolidate lg lp))"
    by (simp only: sorted_sort_key)
  have "tm_name (consolidate lg lp ! i) \<le> tm_name (consolidate lg lp ! Suc i)"
    if "Suc i < length (consolidate lg lp)" for i
  proof -
    from that have "map tm_name (consolidate lg lp) ! i \<le> map tm_name (consolidate lg lp) ! Suc i"
      by (intro sorted_nth_mono[OF s]) simp_all
    with that show ?thesis by simp
  qed
  with s show ?thesis by blast
qed

lemma tech_metrics_query_example:
  "tech_metrics_query example_github example_pypi =
     [select_row (github_snapshot ''A'' 10 2, Some (pypi_snapshot ''A'' 2000 1000)),
      select_row (github_snapshot ''B'' 7 1, None)]"
  by (simp add: tech_metrics_query_def latest_github_example latest_pypi_example consolidate_def
        left_join_def github_snapshot_def pypi_snapshot_def)

theorem consolidate_ordered_by_name_witness:
  "Suc 0 < length (tech_metrics_query example_github example_pypi) \<and>
   tm_name (tech_metrics_query example_github example_pypi ! 0)
     \<le> tm_name (tech_metrics_query example_github example_pypi ! Suc 0) \<and>
   map tm_name (tech_metrics_query example_github example_pypi) = [''A'', ''B'']"
proof -
  have len: "Suc 0 < length (tech_metrics_query example_github example_pypi)"
    and names: "map tm_name (tech_metrics_query example_github example_pypi) = [''A'', ''B'']"
    by (simp_all add: tech_metrics_query_example tm_name_select_row github_snapshot_def)
  from consolidate_ordered_by_name[of "latest_github example_github" "latest_pypi example_pypi"]
    len names show ?thesis
    unfolding tech_metrics_query_def by blast
qed


section \<open>The Publisher\<close>

lemmas publisher_defs =
  load_to_snowflake_def try_block_def connect_def called_def ddl_def dml_def
  db_commit_def db_rollback_def visible_def finally_close_def close_both_def
  except_rollback_def raises_def Let_def

text \<open>A run in which no call raises.\<close>

lemma load_to_snowflake_success:
  "load_to_snowflake s Map.empty w =
     (Inr (length (tech_metrics_query (github_repo_metrics w) (pypi_download_stats w))),
      w\<lparr>tech_metrics := tech_metrics_query (github_repo_metrics w) (pypi_download_stats w)\<rparr>,
      [Connect, Execute_truncate, Execute_insert, Commit, Cursor_close, Conn_close])"
  by (simp add: publisher_defs)

text \<open>
  In a session where \<^verbatim>\<open>TRUNCATE\<close> and \<^verbatim>\<open>INSERT\<close> share one transaction, a run in which
  \<^verbatim>\<open>connect\<close> or a statement of the \<^verbatim>\<open>try\<close> block raises leaves the warehouse as it
  found it, whatever \<^verbatim>\<open>rollback()\<close> and the \<^verbatim>\<open>close()\<close> calls do.
\<close>

lemma load_to_snowflake_failure_transactional:
  assumes "\<not> autocommit s" "\<not> truncate_commits s"
    and "f At_connect \<noteq> None \<or> f At_truncate \<noteq> None \<or> f At_insert \<noteq> None \<or> f At_commit \<noteq> None"
  shows "fst (snd (load_to_snowflake s f w)) = w"
  using assms by (auto simp add: publisher_defs split: option.splits)

text \<open>
  In a session that commits the \<^verbatim>\<open>TRUNCATE\<close> when it completes, a failing \<^verbatim>\<open>INSERT\<close>
  leaves the published table empty: \<^verbatim>\<open>rollback()\<close> finds nothing to undo.
\<close>

lemma failed_insert_not_undone:
  assumes "autocommit s \<or> truncate_commits s"
    and "f At_connect = None" "f At_truncate = None" "f At_insert = Some e"
  shows "fst (snd (load_to_snowflake s f w)) = w\<lparr>tech_metrics := []\<rparr>"
  using assms by (auto simp add: publisher_defs split: option.splits)

text \<open>
  C1, at a failing input. The session is the one \<^verbatim>\<open>connect\<close> gives with the six
  configured keys; the published table holds one row; the \<^verbatim>\<open>INSERT\<close> raises. The
  handler rolls back and re-raises, and the published table is left empty, not as it
  was before the run.
\<close>

theorem failed_insert_leaves_published_table_empty:
  "load_to_snowflake snowflake_default [At_insert \<mapsto> ''connection lost''] example_warehouse =
     (Inl ''connection lost'', example_warehouse\<lparr>tech_metrics := []\<rparr>,
      [Connect, Execute_truncate, Execute_insert, Rollback, Cursor_close, Conn_close]) \<and>
   tech_metrics example_warehouse = [select_row (github_snapshot ''A'' 5 1, None)]"
  by (simp add: publisher_defs snowflake_default_def example_warehouse_def)

text \<open>
  C6. A second run on the warehouse the first run left, the source snapshots unchanged,
  leaves that warehouse as it is, row for row: the published table is the query's
  result both times, and both runs report the same count.
\<close>

theorem publish_twice_same_table:
  "fst (snd (load_to_snowflake s' Map.empty (fst (snd (load_to_snowflake s Map.empty w)))))
     = fst (snd (load_to_snowflake s Map.empty w)) \<and>
   tech_metrics (fst (snd (load_to_snowflake s Map.empty w)))
     = tech_metrics_query (github_repo_metrics w) (pypi_download_stats w) \<and>
   fst (load_to_snowflake s' Map.empty (fst (snd (load_to_snowflake s Map.empty w))))
     = fst (load_to_snowflake s Map.empty w)"
  by (simp add: load_to_snowflake_success)

section \<open>The orchestrator\<close>

lemmas orchestrator_defs =
  main_def run_github_etl_def run_pypi_etl_def run_load_public_def run_phase_def

text \<open>
  When the two ingestion phases return or raise an \<^verbatim>\<open>Exception\<close>, the orchestrator
  reaches the publish phase, and ends as that phase lets it.
\<close>

lemma main_caught:
  assumes "caught (fst (gh w))" and "caught (fst (py (snd (gh w))))"
  shows "main gh py lp w =
     (case lp (snd (py (snd (gh w)))) of
        (Returned, w3) \<Rightarrow>
          (SystemExit (if fst (gh w) = Returned \<and> fst (py (snd (gh w))) = Returned then 0 else 1),
           [Phase1_github, Phase2_pypi, Phase3_load_public], w3)
      | (Raised e, w3) \<Rightarrow> (SystemExit 1, [Phase1_github, Phase2_pypi, Phase3_load_public], w3)
      | (SystemExit code, w3) \<Rightarrow>
          (SystemExit code, [Phase1_github, Phase2_pypi, Phase3_load_public], w3)
      | (KeyboardInterrupt, w3) \<Rightarrow>
          (KeyboardInterrupt, [Phase1_github, Phase2_pypi, Phase3_load_public], w3))"
  using assms
  by (cases "gh w"; cases "py (snd (gh w))"; cases "lp (snd (py (snd (gh w))))")
     (auto simp: orchestrator_defs caught_def split: outcome.splits)

text \<open>
  A \<^verbatim>\<open>SystemExit\<close> or a \<^verbatim>\<open>KeyboardInterrupt\<close> is not an \<^verbatim>\<open>Exception\<close>: when a phase ends
  by one, as each module's \<^verbatim>\<open>load_config\<close> does by \<^verbatim>\<open>exit(1)\<close> on a missing file or
  variable, the orchestrator ends with it and starts no other phase.
\<close>

lemma main_leaves_at_phase1:
  assumes "\<not> caught (fst (gh w))"
  shows "main gh py lp w = (fst (gh w), [Phase1_github], snd (gh w))"
  using assms
  by (cases "gh w") (auto simp: orchestrator_defs caught_def split: outcome.splits)

lemma main_leaves_at_phase2:
  assumes "caught (fst (gh w))" and "\<not> caught (fst (py (snd (gh w))))"
  shows "main gh py lp w =
           (fst (py (snd (gh w))), [Phase1_github, Phase2_pypi], snd (py (snd (gh w))))"
  using assms
  by (cases "gh w"; cases "py (snd (gh w))")
     (auto simp: orchestrator_defs caught_def split: outcome.splits)

text \<open>
  The exit status is 0 exactly when all three phases returned, unless a phase leaves by
  a \<^verbatim>\<open>SystemExit\<close> that the process reports as status 0.
\<close>

lemma main_exit_code_zero:
  assumes "\<not> exits_zero (fst (gh w))"
      and "\<not> exits_zero (fst (py (snd (gh w))))"
      and "\<not> exits_zero (fst (lp (snd (py (snd (gh w))))))"
  shows "exit_code (fst (main gh py lp w)) = 0 \<longleftrightarrow>
           fst (gh w) = Returned \<and> fst (py (snd (gh w))) = Returned \<and>
           fst (lp (snd (py (snd (gh w))))) = Returned"
  using assms
  by (cases "gh w"; cases "py (snd (gh w))"; cases "lp (snd (py (snd (gh w))))")
     (auto simp: orchestrator_defs exit_code_def exits_zero_def split: outcome.splits)

lemma load_config_example: "load_config example_env = Inr (snowflake_section example_env)"
  by (simp add: load_config_def example_env_def snowflake_section_def truthy_def)

lemma load_config_example_no_token:
  "load_config example_env_no_token = Inr (snowflake_section example_env_no_token)"
  by (simp add: load_config_def example_env_no_token_def example_env_def snowflake_section_def
        truthy_def)

text \<open>\<^verbatim>\<open>load_public.load_config\<close> leaves with status 1 only.\<close>

lemma load_config_exit: "load_config env = Inl code \<Longrightarrow> code = 1"
  by (auto simp: load_config_def split: option.splits if_splits)

lemma load_public_main_outcome:
  "fst (load_public_main env s f w) =
     (case load_config env of Inl code \<Rightarrow> SystemExit code
      | Inr config \<Rightarrow> (case fst (load_to_snowflake s f w) of Inl e \<Rightarrow> Raised e | Inr n \<Rightarrow> Returned))"
  by (cases "load_to_snowflake s f w")
     (auto simp: load_public_main_def split: sum.splits)

text \<open>The publish phase of the repository never leaves with status 0.\<close>

lemma load_public_main_not_exits_zero: "\<not> exits_zero (fst (load_public_main env s f w))"
  by (auto simp: load_public_main_outcome exits_zero_def dest: load_config_exit split: sum.splits)

text \<open>
  C9, as stated, fails. With \<^verbatim>\<open>GITHUB_TOKEN\<close> unset, \<^verbatim>\<open>github_repo_etl.load_config\<close> calls
  \<^verbatim>\<open>exit(1)\<close>; the \<^verbatim>\<open>SystemExit\<close> passes \<^verbatim>\<open>except Exception\<close>, and the orchestrator ends
  after the first phase: the publish phase, which would have returned, is not run and
  the published table is as before.
\<close>

theorem orchestrator_short_circuit_counterexample:
  "main (github_repo_etl_main example_env_no_token example_api snowflake_default Map.empty)
        (\<lambda>w. (Returned, w))
        (load_public_main example_env_no_token snowflake_default Map.empty) example_warehouse
     = (SystemExit 1, [Phase1_github], example_warehouse) \<and>
   load_public_main example_env_no_token snowflake_default Map.empty example_warehouse
     = (Returned,
        example_warehouse\<lparr>tech_metrics := tech_metrics_query example_github example_pypi\<rparr>)"
proof
  have "github_repo_etl_main example_env_no_token example_api snowflake_default Map.empty
          example_warehouse = (SystemExit 1, example_warehouse)"
    by (simp add: github_repo_etl_main_def github_load_config_def example_env_no_token_def
          example_env_def)
  then show "main (github_repo_etl_main example_env_no_token example_api snowflake_default Map.empty)
        (\<lambda>w. (Returned, w))
        (load_public_main example_env_no_token snowflake_default Map.empty) example_warehouse
     = (SystemExit 1, [Phase1_github], example_warehouse)"
    by (simp add: orchestrator_defs)
  show "load_public_main example_env_no_token snowflake_default Map.empty example_warehouse
     = (Returned,
        example_warehouse\<lparr>tech_metrics := tech_metrics_query example_github example_pypi\<rparr>)"
    by (simp add: load_public_main_def load_config_example_no_token load_to_snowflake_success
          example_warehouse_def)
qed

text \<open>
  C9, as the code has it. When each ingestion phase returns or raises an \<^verbatim>\<open>Exception\<close>,
  all three phases are started, in order, each on the world the phase before left, and
  the world after the run is the one the publish phase leaves. When an ingestion phase
  leaves by \<^verbatim>\<open>SystemExit\<close> or \<^verbatim>\<open>KeyboardInterrupt\<close>, the orchestrator ends with it and
  starts no later phase. The exit status is 0 exactly when all three phases returned,
  provided no phase leaves by a \<^verbatim>\<open>SystemExit\<close> whose code is 0 modulo 256 (the modules
  call \<^verbatim>\<open>exit(1)\<close> only).
\<close>

theorem orchestrator_phases_and_exit_code:
  "(caught (fst (gh w)) \<and> caught (fst (py (snd (gh w)))) \<longrightarrow>
      fst (snd (main gh py lp w)) = [Phase1_github, Phase2_pypi, Phase3_load_public] \<and>
      snd (snd (main gh py lp w)) = snd (lp (snd (py (snd (gh w)))))) \<and>
   (\<not> caught (fst (gh w)) \<longrightarrow>
      main gh py lp w = (fst (gh w), [Phase1_github], snd (gh w))) \<and>
   (caught (fst (gh w)) \<and> \<not> caught (fst (py (snd (gh w)))) \<longrightarrow>
      main gh py lp w =
        (fst (py (snd (gh w))), [Phase1_github, Phase2_pypi], snd (py (snd (gh w))))) \<and>
   (\<not> exits_zero (fst (gh w)) \<and> \<not> exits_zero (fst (py (snd (gh w)))) \<and>
    \<not> exits_zero (fst (lp (snd (py (snd (gh w)))))) \<longrightarrow>
      (exit_code (fst (main gh py lp w)) = 0 \<longleftrightarrow>
         fst (gh w) = Returned \<and> fst (py (snd (gh w))) = Returned \<and>
         fst (lp (snd (py (snd (gh w))))) = Returned))"
proof (intro conjI impI)
  assume c: "caught (fst (gh w)) \<and> caught (fst (py (snd (gh w))))"
  then have m: "main gh py lp w =
     (case lp (snd (py (snd (gh w)))) of
        (Returned, w3) \<Rightarrow>
          (SystemExit (if fst (gh w) = Returned \<and> fst (py (snd (gh w))) = Returned then 0 else 1),
           [Phase1_github, Phase2_pypi, Phase3_load_public], w3)
      | (Raised e, w3) \<Rightarrow> (SystemExit 1, [Phase1_github, Phase2_pypi, Phase3_load_public], w3)
      | (SystemExit code, w3) \<Rightarrow>
          (SystemExit code, [Phase1_github, Phase2_pypi, Phase3_load_public], w3)
      | (KeyboardInterrupt, w3) \<Rightarrow>
          (KeyboardInterrupt, [Phase1_github, Phase2_pypi, Phase3_load_public], w3))"
    by (intro main_caught) simp_all
  show "fst (snd (main gh py lp w)) = [Phase1_github, Phase2_pypi, Phase3_load_public]"
    unfolding m by (cases "lp (snd (py (snd (gh w))))") (simp split: outcome.splits)
  show "snd (snd (main gh py lp w)) = snd (lp (snd (py (snd (gh w)))))"
    unfolding m by (cases "lp (snd (py (snd (gh w))))") (simp split: outcome.splits)
next
  assume "\<not> caught (fst (gh w))"
  then show "main gh py lp w = (fst (gh w), [Phase1_github], snd (gh w))"
    by (rule main_leaves_at_phase1)
next
  assume "caught (fst (gh w)) \<and> \<not> caught (fst (py (snd (gh w))))"
  then show "main gh py lp w =
        (fst (py (snd (gh w))), [Phase1_github, Phase2_pypi], snd (py (snd (gh w))))"
    by (intro main_leaves_at_phase2) simp_all
next
  assume "\<not> exits_zero (fst (gh w)) \<and> \<not> exits_zero (fst (py (snd (gh w)))) \<and>
          \<not> exits_zero (fst (lp (snd (py (snd (gh w))))))"
  then show "exit_code (fst (main gh py lp w)) = 0 \<longleftrightarrow>
         fst (gh w) = Returned \<and> fst (py (snd (gh w))) = Returned \<and>
         fst (lp (snd (py (snd (gh w))))) = Returned"
    by (intro main_exit_code_zero) simp_all
qed

theorem orchestrator_phases_and_exit_code_witness:
  "caught (Raised ''GitHub ETL failed'') \<and> caught Returned \<and>
   \<not> caught (SystemExit 1) \<and> \<not> caught KeyboardInterrupt \<and>
   \<not> exits_zero (Raised ''GitHub ETL failed'') \<and> \<not> exits_zero Returned \<and>
   main (\<lambda>w. (Raised ''GitHub ETL failed'', w)) (\<lambda>w. (Returned, w))
        (load_public_main example_env snowflake_default Map.empty) example_warehouse
     = (SystemExit 1, [Phase1_github, Phase2_pypi, Phase3_load_public],
        example_warehouse\<lparr>tech_metrics := tech_metrics_query example_github example_pypi\<rparr>) \<and>
   exit_code (fst (main (\<lambda>w. (Returned, w)) (\<lambda>w. (Returned, w))
        (load_public_main example_env snowflake_default Map.empty) example_warehouse)) = 0 \<and>
   main (\<lambda>w. (SystemExit 1, w)) (\<lambda>w. (Returned, w))
        (load_public_main example_env snowflake_default Map.empty) example_warehouse
     = (SystemExit 1, [Phase1_github], example_warehouse) \<and>
   main (\<lambda>w. (Returned, w)) (\<lambda>w. (KeyboardInterrupt, w))
        (load_public_main example_env snowflake_default Map.empty) example_warehouse
     = (KeyboardInterrupt, [Phase1_github, Phase2_pypi], example_warehouse)"
proof -
  let ?raise = "\<lambda>w::warehouse. (Raised ''GitHub ETL failed'', w)"
  let ?ok = "\<lambda>w::warehouse. (Returned, w)"
  let ?exit = "\<lambda>w::warehouse. (SystemExit 1, w)"
  let ?int = "\<lambda>w::warehouse. (KeyboardInterrupt, w)"
  let ?lp = "load_public_main example_env snowflake_default Map.empty"
  let ?w' = "example_warehouse\<lparr>tech_metrics := tech_metrics_query example_github example_pypi\<rparr>"
  have lp: "?lp example_warehouse = (Returned, ?w')"
    by (simp add: load_public_main_def load_config_example load_to_snowflake_success
          example_warehouse_def)
  have hyps: "caught (Raised ''GitHub ETL failed'')" "caught Returned"
    "\<not> caught (SystemExit 1)" "\<not> caught KeyboardInterrupt"
    "\<not> exits_zero (Raised ''GitHub ETL failed'')" "\<not> exits_zero Returned"
    by (simp_all add: caught_def exits_zero_def)
  note a = orchestrator_phases_and_exit_code
             [where gh="?raise" and py="?ok" and lp="?lp" and w=example_warehouse]
  note b = orchestrator_phases_and_exit_code
             [where gh="?ok" and py="?ok" and lp="?lp" and w=example_warehouse]
  note c = orchestrator_phases_and_exit_code
             [where gh="?exit" and py="?ok" and lp="?lp" and w=example_warehouse]
  note d = orchestrator_phases_and_exit_code
             [where gh="?ok" and py="?int" and lp="?lp" and w=example_warehouse]
  from a hyps lp
  have 1: "main ?raise ?ok ?lp example_warehouse
             = (SystemExit 1, [Phase1_github, Phase2_pypi, Phase3_load_public], ?w')"
    by (cases "main ?raise ?ok ?lp example_warehouse")
       (auto simp: orchestrator_defs exit_code_def)
  from b hyps lp
  have 2: "exit_code (fst (main ?ok ?ok ?lp example_warehouse)) = 0"
    by simp
  from c hyps
  have 3: "main ?exit ?ok ?lp example_warehouse = (SystemExit 1, [Phase1_github], example_warehouse)"
    by simp
  from d hyps
  have 4: "main ?ok ?int ?lp example_warehouse
             = (KeyboardInterrupt, [Phase1_github, Phase2_pypi], example_warehouse)"
    by simp
  from 1 2 3 4 hyps show ?thesis by simp
qed

section \<open>Failure of the publish step\<close>

text \<open>
  What a run does in which \<^verbatim>\<open>connect\<close> succeeds and the \<^verbatim>\<open>try\<close> block raises \<open>e\<close>: the
  exception that reaches the caller is that of the last call that raised, and
  \<^verbatim>\<open>conn.close()\<close> is skipped when \<^verbatim>\<open>cursor.close()\<close> raises.
\<close>

lemma load_to_snowflake_failure:
  assumes "f At_connect = None"
      and "f At_truncate = Some e \<or> (f At_truncate = None \<and> f At_insert = Some e) \<or>
           (f At_truncate = None \<and> f At_insert = None \<and> f At_commit = Some e)"
  shows "fst (load_to_snowflake s f w) =
           Inl (case f At_cursor_close of Some x \<Rightarrow> x | None \<Rightarrow>
                (case f At_conn_close of Some x \<Rightarrow> x | None \<Rightarrow>
                 (case f At_rollback of Some x \<Rightarrow> x | None \<Rightarrow> e)))"
    and "\<exists>pre. snd (snd (load_to_snowflake s f w)) =
                 Connect # pre @ Rollback #
                   (if f At_cursor_close = None then [Cursor_close, Conn_close] else [Cursor_close]) \<and>
               set pre \<subseteq> {Execute_truncate, Execute_insert, Commit} \<and> distinct pre"
  using assms
  by (auto simp add: publisher_defs split: option.splits)

text \<open>
  C8, as stated, fails: \<^verbatim>\<open>conn.rollback()\<close> stands unguarded in the handler. When the
  \<^verbatim>\<open>INSERT\<close> raises and \<^verbatim>\<open>rollback()\<close> raises too, the caller receives the exception of
  \<^verbatim>\<open>rollback()\<close>, not the error of the publish step.
\<close>

theorem publish_error_replaced_counterexample:
  "load_to_snowflake snowflake_default
       [At_insert \<mapsto> ''insert failed'', At_rollback \<mapsto> ''rollback failed''] example_warehouse
     = (Inl ''rollback failed'', example_warehouse\<lparr>tech_metrics := []\<rparr>,
        [Connect, Execute_truncate, Execute_insert, Rollback, Cursor_close, Conn_close]) \<and>
   fst (load_to_snowflake snowflake_default
       [At_insert \<mapsto> ''insert failed'', At_rollback \<mapsto> ''rollback failed''] example_warehouse)
     \<noteq> Inl ''insert failed''"
  by (simp add: publisher_defs snowflake_default_def example_warehouse_def)

text \<open>
  C8, as the code has it. When \<^verbatim>\<open>connect\<close> succeeds and \<^verbatim>\<open>TRUNCATE\<close>, \<^verbatim>\<open>INSERT\<close> or
  \<^verbatim>\<open>commit\<close> raises \<open>e\<close>:
  \<^item> an exception reaches the caller of \<^verbatim>\<open>load_to_snowflake\<close>: \<open>e\<close> itself when
    \<^verbatim>\<open>rollback()\<close> and the two \<^verbatim>\<open>close()\<close> calls raise nothing, otherwise the exception of
    the last of these calls that raised;
  \<^item> its calls are one \<^verbatim>\<open>connect\<close>, each statement at most once, \<^verbatim>\<open>rollback\<close> once, then
    \<^verbatim>\<open>cursor.close()\<close> and, unless that raised, \<^verbatim>\<open>conn.close()\<close>: nothing is retried;
  \<^item> \<^verbatim>\<open>load_public.main\<close> ends by that exception, which makes the exit status 1 both
    when the module is run as a script and under the orchestrator once it has reached
    the publish phase;
  \<^item> the orchestrator's exit status is 0 only if both ingestion phases returned and the
    publish step raised nothing (no ingestion phase leaving with a status the process
    reports as 0).
\<close>

theorem publish_failure_rolls_back_and_reraises:
  assumes "f At_connect = None"
      and "f At_truncate = Some e \<or> (f At_truncate = None \<and> f At_insert = Some e) \<or>
           (f At_truncate = None \<and> f At_insert = None \<and> f At_commit = Some e)"
      and "load_config env = Inr config"
  shows "(\<exists>e'. fst (load_to_snowflake s f w') = Inl e' \<and>
               fst (load_public_main env s f w') = Raised e' \<and>
               e' = (case f At_cursor_close of Some x \<Rightarrow> x | None \<Rightarrow>
                     (case f At_conn_close of Some x \<Rightarrow> x | None \<Rightarrow>
                      (case f At_rollback of Some x \<Rightarrow> x | None \<Rightarrow> e)))) \<and>
         (f At_rollback = None \<and> f At_cursor_close = None \<and> f At_conn_close = None \<longrightarrow>
            fst (load_to_snowflake s f w') = Inl e) \<and>
         (\<exists>pre. snd (snd (load_to_snowflake s f w')) =
                 Connect # pre @ Rollback #
                   (if f At_cursor_close = None then [Cursor_close, Conn_close] else [Cursor_close]) \<and>
               set pre \<subseteq> {Execute_truncate, Execute_insert, Commit} \<and> distinct pre) \<and>
         exit_code (fst (load_public_main env s f w')) = 1 \<and>
         (caught (fst (gh w)) \<and> caught (fst (py (snd (gh w)))) \<longrightarrow>
            exit_code (fst (main gh py (load_public_main env s f) w)) = 1) \<and>
         (\<forall>f'. \<not> exits_zero (fst (gh w)) \<and> \<not> exits_zero (fst (py (snd (gh w)))) \<and>
               exit_code (fst (main gh py (load_public_main env s f') w)) = 0 \<longrightarrow>
              fst (gh w) = Returned \<and> fst (py (snd (gh w))) = Returned \<and>
              (\<exists>n. fst (load_to_snowflake s f' (snd (py (snd (gh w))))) = Inr n))"
proof (intro conjI allI impI)
  let ?e' = "case f At_cursor_close of Some x \<Rightarrow> x | None \<Rightarrow>
               (case f At_conn_close of Some x \<Rightarrow> x | None \<Rightarrow>
                (case f At_rollback of Some x \<Rightarrow> x | None \<Rightarrow> e))"
  have err: "fst (load_to_snowflake s f v) = Inl ?e'" for v
    by (rule load_to_snowflake_failure(1)[OF assms(1,2)])
  have raised: "fst (load_public_main env s f v) = Raised ?e'" for v
    using err[of v] assms(3) by (simp add: load_public_main_outcome)
  show "\<exists>e'. fst (load_to_snowflake s f w') = Inl e' \<and>
               fst (load_public_main env s f w') = Raised e' \<and> e' = ?e'"
    using err raised by blast
  show "\<exists>pre. snd (snd (load_to_snowflake s f w')) =
                 Connect # pre @ Rollback #
                   (if f At_cursor_close = None then [Cursor_close, Conn_close] else [Cursor_close]) \<and>
               set pre \<subseteq> {Execute_truncate, Execute_insert, Commit} \<and> distinct pre"
    by (rule load_to_snowflake_failure(2)[OF assms(1,2)])
  show "exit_code (fst (load_public_main env s f w')) = 1"
    by (simp add: raised exit_code_def)
  {
    assume "f At_rollback = None \<and> f At_cursor_close = None \<and> f At_conn_close = None"
    with err[of w'] show "fst (load_to_snowflake s f w') = Inl e" by simp
  }
  {
    assume c: "caught (fst (gh w)) \<and> caught (fst (py (snd (gh w))))"
    have "fst (load_public_main env s f (snd (py (snd (gh w))))) = Raised ?e'"
      by (rule raised)
    then show "exit_code (fst (main gh py (load_public_main env s f) w)) = 1"
      unfolding main_caught[where gh=gh and py=py and w=w, OF c[THEN conjunct1] c[THEN conjunct2]]
      by (cases "load_public_main env s f (snd (py (snd (gh w))))")
         (simp add: exit_code_def)
  }
next
  fix f'
  assume a: "\<not> exits_zero (fst (gh w)) \<and> \<not> exits_zero (fst (py (snd (gh w)))) \<and>
             exit_code (fst (main gh py (load_public_main env s f') w)) = 0"
  let ?w2 = "snd (py (snd (gh w)))"
  have out: "fst (load_public_main env s f' ?w2) =
               (case fst (load_to_snowflake s f' ?w2) of Inl e \<Rightarrow> Raised e | Inr n \<Rightarrow> Returned)"
    using assms(3) by (simp add: load_public_main_outcome)
  from a main_exit_code_zero[where gh=gh and py=py and lp="load_public_main env s f'" and w=w]
       load_public_main_not_exits_zero[of env s f' ?w2]
  have all: "fst (gh w) = Returned \<and> fst (py (snd (gh w))) = Returned \<and>
             fst (load_public_main env s f' ?w2) = Returned"
    by blast
  then show "fst (gh w) = Returned" and "fst (py (snd (gh w))) = Returned" by simp_all
  from all out show "\<exists>n. fst (load_to_snowflake s f' ?w2) = Inr n"
    by (cases "fst (load_to_snowflake s f' ?w2)") simp_all
qed

theorem publish_failure_rolls_back_and_reraises_witness:
  "[At_insert \<mapsto> ''insert failed''] At_connect = None \<and>
   [At_insert \<mapsto> ''insert failed''] At_truncate = None \<and>
   [At_insert \<mapsto> ''insert failed''] At_insert = Some ''insert failed'' \<and>
   load_config example_env = Inr (snowflake_section example_env) \<and>
   caught Returned \<and> \<not> exits_zero Returned \<and>
   fst (load_to_snowflake snowflake_default [At_insert \<mapsto> ''insert failed''] example_warehouse)
     = Inl ''insert failed'' \<and>
   snd (snd (load_to_snowflake snowflake_default [At_insert \<mapsto> ''insert failed'']
               example_warehouse))
     = [Connect, Execute_truncate, Execute_insert, Rollback, Cursor_close, Conn_close] \<and>
   exit_code (fst (main (\<lambda>w. (Returned, w)) (\<lambda>w. (Returned, w))
       (load_public_main example_env snowflake_default [At_insert \<mapsto> ''insert failed''])
       example_warehouse)) = 1"
proof -
  let ?ok = "\<lambda>w::warehouse. (Returned, w)"
  let ?f = "[At_insert \<mapsto> ''insert failed'']"
  have conn: "?f At_connect = None" by simp
  have st: "?f At_truncate = Some ''insert failed'' \<or>
            (?f At_truncate = None \<and> ?f At_insert = Some ''insert failed'') \<or>
            (?f At_truncate = None \<and> ?f At_insert = None \<and> ?f At_commit = Some ''insert failed'')"
    by simp
  have hyps: "caught Returned" "\<not> exits_zero Returned"
    by (simp_all add: caught_def exits_zero_def)
  have log: "snd (snd (load_to_snowflake snowflake_default ?f example_warehouse))
     = [Connect, Execute_truncate, Execute_insert, Rollback, Cursor_close, Conn_close]"
    by (simp add: publisher_defs snowflake_default_def)
  from publish_failure_rolls_back_and_reraises
         [where gh="?ok" and py="?ok" and w=example_warehouse and w'=example_warehouse
            and s=snowflake_default and f="?f" and e="''insert failed''",
          OF conn st load_config_example]
       load_config_example hyps log
  show ?thesis by simp
qed

section \<open>GitHub ingestion\<close>

lemma github_repo_etl_main_without_token:
  assumes "getenv env ''GITHUB_TOKEN'' = None"
  shows "github_repo_etl_main env api s f w = (SystemExit 1, w)"
  using assms
  by (simp add: github_repo_etl_main_def github_load_config_def split: option.splits)

text \<open>The GitHub phase of the repository never leaves with status 0.\<close>

lemma github_repo_etl_main_not_exits_zero:
  "\<not> exits_zero (fst (github_repo_etl_main env api s f w))"
  by (auto simp: github_repo_etl_main_def github_load_config_def exits_zero_def
           split: option.splits sum.splits prod.splits if_splits)

lemma get_repo_metrics_non_200:
  assumes "requests_get api (repo_url ow rp) = Inr resp" and "status_code resp \<noteq> 200"
  shows "get_repo_metrics api n ow rp tok = Inr None"
  using assms by (simp add: get_repo_metrics_def)

lemma get_repo_metrics_Some:
  assumes "get_repo_metrics api n ow rp tok = Inr (Some m)"
  shows "library_name m = n \<and> owner m = ow \<and> repo_name m = rp \<and>
         (\<exists>resp. requests_get api (repo_url ow rp) = Inr resp \<and> status_code resp = 200)"
  using assms
  by (auto simp: get_repo_metrics_def Let_def
           split: sum.splits if_splits body.splits prod.splits)

lemma all_metrics_skip:
  assumes "get_repo_metrics api (lib_name l) (lib_github_owner l) (lib_github_repo l) tok = Inr None"
  shows "all_metrics api tok (pre @ l # post) = all_metrics api tok (pre @ post)"
proof (induction pre)
  case Nil
  from assms show ?case by (simp split: sum.splits)
next
  case (Cons a pre)
  then show ?case by (simp only: append_Cons all_metrics.simps)
qed

lemma all_metrics_fetched:
  "all_metrics api tok libs = Inr ms \<Longrightarrow> m \<in> set ms \<Longrightarrow>
     \<exists>resp. requests_get api (repo_url (owner m) (repo_name m)) = Inr resp \<and> status_code resp = 200"
proof (induction libs arbitrary: ms)
  case Nil
  then show ?case by simp
next
  case (Cons a libs)
  from Cons.prems(1) obtain x ms' where
    x: "get_repo_metrics api (lib_name a) (lib_github_owner a) (lib_github_repo a) tok = Inr x"
    and ms': "all_metrics api tok libs = Inr ms'"
    and ms: "ms = (case x of None \<Rightarrow> ms' | Some m \<Rightarrow> m # ms')"
    by (auto split: sum.splits)
  show ?case
  proof (cases "m \<in> set ms'")
    case True
    with Cons.IH[OF ms'] show ?thesis by blast
  next
    case False
    with ms Cons.prems(2) have "x = Some m" by (cases x) auto
    with get_repo_metrics_Some[of api _ _ _ tok m] x show ?thesis by metis
  qed
qed

lemma called_simps [simp]:
  "settings (called x c) = settings c"
  "committed (called x c) = committed c"
  "pending (called x c) = pending c"
  "visible (called x c) = visible c"
  by (simp_all add: called_def visible_def split: option.splits)

lemma execute_each_inv:
  assumes "execute_each f i ms c = (r, c')"
  shows "settings c' = settings c \<and>
         (\<exists>k. visible c' = (visible c)\<lparr>github_repo_metrics :=
                  github_repo_metrics (visible c) @ map metrics_row (take k ms)\<rparr> \<and>
              (r = None \<longrightarrow> k = length ms)) \<and>
         (autocommit (settings c) \<and> pending c = None \<longrightarrow> pending c' = None) \<and>
         (\<not> autocommit (settings c) \<longrightarrow> committed c' = committed c)"
  using assms
proof (induction ms arbitrary: i c)
  case Nil
  then show ?case by (auto intro: exI[of _ 0])
next
  case (Cons m ms)
  show ?case
  proof (cases "raises f (At_row i)")
    case (Some e)
    with Cons.prems have "c' = called Execute_insert c" by simp
    then show ?thesis using Cons.prems Some
      by (auto intro!: exI[of _ 0])
  next
    case None
    let ?c1 = "dml (\<lambda>w. w\<lparr>github_repo_metrics := github_repo_metrics w @ [metrics_row m]\<rparr>)
                 (called Execute_insert c)"
    from Cons.prems None have rec: "execute_each f (Suc i) ms ?c1 = (r, c')" by simp
    from Cons.IH[OF rec] obtain k where
      s: "settings c' = settings ?c1"
      and v: "visible c' = (visible ?c1)\<lparr>github_repo_metrics :=
                  github_repo_metrics (visible ?c1) @ map metrics_row (take k ms)\<rparr>"
      and full: "r = None \<longrightarrow> k = length ms"
      and p: "autocommit (settings ?c1) \<and> pending ?c1 = None \<longrightarrow> pending c' = None"
      and cm: "\<not> autocommit (settings ?c1) \<longrightarrow> committed c' = committed ?c1"
      by blast
    have s1: "settings ?c1 = settings c" by (simp add: dml_def)
    have v1: "visible ?c1 = (visible c)\<lparr>github_repo_metrics :=
                 github_repo_metrics (visible c) @ [metrics_row m]\<rparr>"
      using called_simps(4)[of Execute_insert c]
      by (simp add: dml_def) (simp add: visible_def)
    have p1: "autocommit (settings c) \<longrightarrow> pending ?c1 = None"
      by (simp add: dml_def)
    have c1: "\<not> autocommit (settings c) \<longrightarrow> committed ?c1 = committed c"
      by (simp add: dml_def)
    from v v1 have "visible c' = (visible c)\<lparr>github_repo_metrics :=
                  github_repo_metrics (visible c) @ map metrics_row (take (Suc k) (m # ms))\<rparr>"
      by simp
    moreover from full have "r = None \<longrightarrow> Suc k = length (m # ms)" by simp
    ultimately have "\<exists>k. visible c' = (visible c)\<lparr>github_repo_metrics :=
                  github_repo_metrics (visible c) @ map metrics_row (take k (m # ms))\<rparr> \<and>
              (r = None \<longrightarrow> k = length (m # ms))" by blast
    with s s1 p p1 cm c1 show ?thesis by simp
  qed
qed

lemma insert_metrics_rows:
  assumes "insert_metrics s f ms w = (r, w')"
  shows "\<exists>k. w' = w\<lparr>github_repo_metrics := github_repo_metrics w @ map metrics_row (take k ms)\<rparr> \<and>
             (r = None \<longrightarrow> k = length ms)"
proof (cases "ms = [] \<or> raises f At_connect \<noteq> None")
  case True
  with assms have "w' = w" "r = None \<longrightarrow> ms = []"
    by (cases "raises f At_connect"; simp add: insert_metrics_def split: if_splits)+
  then show ?thesis by (auto intro!: exI[of _ 0])
next
  case False
  obtain r0 c where ex: "execute_each f 0 ms (connect s w) = (r0, c)"
    by (cases "execute_each f 0 ms (connect s w)")
  from execute_each_inv[OF ex] obtain k where
    v: "visible c = w\<lparr>github_repo_metrics := github_repo_metrics w @ map metrics_row (take k ms)\<rparr>"
    and full: "r0 = None \<longrightarrow> k = length ms"
    and p: "autocommit s \<longrightarrow> pending c = None"
    and cm: "\<not> autocommit s \<longrightarrow> committed c = w"
    by (auto simp: connect_def visible_def)
  from p have vc: "autocommit s \<longrightarrow> committed c = visible c" by (simp add: visible_def)
  show ?thesis
  proof (cases r0)
    case (Some e)
    with assms False ex have "w' = committed c" "r = Some e"
      by (auto simp: insert_metrics_def)
    with v vc cm show ?thesis
      by (cases "autocommit s") (auto intro: exI[of _ 0])
  next
    case None
    with full have k: "k = length ms" by simp
    show ?thesis
    proof (cases "raises f At_commit")
      case (Some e)
      with assms False ex None have "w' = committed c" "r = Some e"
        by (auto simp: insert_metrics_def)
      with v vc cm show ?thesis
        by (cases "autocommit s") (auto intro: exI[of _ 0])
    next
      case None': None
      obtain r1 c1 where cl: "close_both f (db_commit (called Commit c)) = (r1, c1)"
        by (cases "close_both f (db_commit (called Commit c))")
      then have "committed c1 = visible c"
        by (auto simp: close_both_def db_commit_def Let_def split: option.splits)
      with assms False ex None None' cl have "w' = visible c"
        by (auto simp: insert_metrics_def)
      with v k have "w' = w\<lparr>github_repo_metrics :=
                 github_repo_metrics w @ map metrics_row (take (length ms) ms)\<rparr>"
        by simp
      then show ?thesis by blast
    qed
  qed
qed

lemma github_repo_etl_main_rows:
  assumes "github_repo_etl_main env api s f w = (out, w')"
  shows "\<exists>ms k. w' = w\<lparr>github_repo_metrics := github_repo_metrics w @ map metrics_row (take k ms)\<rparr> \<and>
           (\<forall>m \<in> set ms. \<exists>resp. requests_get api (repo_url (owner m) (repo_name m)) = Inr resp \<and>
                              status_code resp = 200)"
proof (cases "github_load_config env")
  case (Inl code)
  with assms have "w' = w" by (simp add: github_repo_etl_main_def)
  then show ?thesis by (intro exI[of _ "[]"] exI[of _ 0]) simp
next
  case (Inr config)
  show ?thesis
  proof (cases "all_metrics api (github_token config) (libraries config)")
    case (Inl e)
    with Inr assms have "w' = w" by (simp add: github_repo_etl_main_def)
    then show ?thesis by (intro exI[of _ "[]"] exI[of _ 0]) simp
  next
    case ms: (Inr ms)
    obtain r w'' where ins: "insert_metrics s f ms w = (r, w'')"
      by (cases "insert_metrics s f ms w")
    with Inr ms assms have "w' = w''"
      by (cases r) (simp_all add: github_repo_etl_main_def)
    with insert_metrics_rows[OF ins] obtain k where
      "w' = w\<lparr>github_repo_metrics := github_repo_metrics w @ map metrics_row (take k ms)\<rparr>"
      by blast
    moreover have "\<forall>m \<in> set ms. \<exists>resp. requests_get api (repo_url (owner m) (repo_name m)) = Inr resp \<and>
                              status_code resp = 200"
      using all_metrics_fetched[OF ms] by blast
    ultimately show ?thesis by blast
  qed
qed


text \<open>
  C10. When the repository request of a library is answered with a status other than
  200, \<^verbatim>\<open>get_repo_metrics\<close> returns \<^verbatim>\<open>None\<close>; the batch and the whole run are the ones
  of a configuration without that library; a run configured with that library alone
  returns and writes nothing; and whatever the configuration, the rows a run adds to
  \<^verbatim>\<open>github_repo_metrics\<close> hold none for that repository.
\<close>

theorem non_200_repository_is_skipped:
  assumes "requests_get api (repo_url (lib_github_owner l) (lib_github_repo l)) = Inr resp"
      and "status_code resp \<noteq> 200"
  shows "get_repo_metrics api (lib_name l) (lib_github_owner l) (lib_github_repo l) tok = Inr None \<and>
         all_metrics api tok (pre @ l # post) = all_metrics api tok (pre @ post) \<and>
         github_repo_etl_main (env\<lparr>config_json := Some (pre @ l # post)\<rparr>) api s f w
           = github_repo_etl_main (env\<lparr>config_json := Some (pre @ post)\<rparr>) api s f w \<and>
         (\<forall>config. github_load_config (env\<lparr>config_json := Some [l]\<rparr>) = Inr config \<longrightarrow>
              github_repo_etl_main (env\<lparr>config_json := Some [l]\<rparr>) api s f w = (Returned, w)) \<and>
         (\<forall>out w'. github_repo_etl_main env api s f w = (out, w') \<longrightarrow>
              (\<exists>rows. w' = w\<lparr>github_repo_metrics := github_repo_metrics w @ rows\<rparr> \<and>
                 (\<forall>r \<in> set rows. \<not> (gm_github_owner r = lib_github_owner l \<and>
                                     gm_github_repository_name r = lib_github_repo l))))"
proof (intro conjI allI impI)
  have none: "get_repo_metrics api (lib_name l) (lib_github_owner l) (lib_github_repo l) t = Inr None"
    for t using assms by (rule get_repo_metrics_non_200)
  show "get_repo_metrics api (lib_name l) (lib_github_owner l) (lib_github_repo l) tok = Inr None"
    by (rule none)
  show "all_metrics api tok (pre @ l # post) = all_metrics api tok (pre @ post)"
    using none by (rule all_metrics_skip)
  have skip: "all_metrics api t (pre @ l # post) = all_metrics api t (pre @ post)" for t
    using none by (rule all_metrics_skip)
  show "github_repo_etl_main (env\<lparr>config_json := Some (pre @ l # post)\<rparr>) api s f w
           = github_repo_etl_main (env\<lparr>config_json := Some (pre @ post)\<rparr>) api s f w"
    by (simp add: github_repo_etl_main_def github_load_config_def snowflake_section_def skip
             split: option.splits)
next
  fix config
  assume cfg: "github_load_config (env\<lparr>config_json := Some [l]\<rparr>) = Inr config"
  then have "libraries config = [l]"
    by (auto simp: github_load_config_def split: option.splits if_splits)
  moreover have "all_metrics api (github_token config) [l] = Inr []"
    using get_repo_metrics_non_200[OF assms] by simp
  ultimately show "github_repo_etl_main (env\<lparr>config_json := Some [l]\<rparr>) api s f w = (Returned, w)"
    using cfg by (simp add: github_repo_etl_main_def insert_metrics_def)
next
  fix out w'
  assume "github_repo_etl_main env api s f w = (out, w')"
  from github_repo_etl_main_rows[OF this] obtain ms k where
    w': "w' = w\<lparr>github_repo_metrics := github_repo_metrics w @ map metrics_row (take k ms)\<rparr>"
    and ok: "\<forall>m \<in> set ms. \<exists>resp. requests_get api (repo_url (owner m) (repo_name m)) = Inr resp \<and>
                              status_code resp = 200"
    by blast
  have "\<not> (gm_github_owner r = lib_github_owner l \<and> gm_github_repository_name r = lib_github_repo l)"
    if "r \<in> set (map metrics_row (take k ms))" for r
  proof
    assume same: "gm_github_owner r = lib_github_owner l \<and> gm_github_repository_name r = lib_github_repo l"
    from that obtain m where m: "m \<in> set ms" "r = metrics_row m"
      by (auto dest: in_set_takeD)
    with same have "owner m = lib_github_owner l" "repo_name m = lib_github_repo l"
      by (simp_all add: metrics_row_def)
    with ok m(1) assms show False by fastforce
  qed
  with w' show "\<exists>rows. w' = w\<lparr>github_repo_metrics := github_repo_metrics w @ rows\<rparr> \<and>
                 (\<forall>r \<in> set rows. \<not> (gm_github_owner r = lib_github_owner l \<and>
                                     gm_github_repository_name r = lib_github_repo l))"
    by blast
qed

lemma example_A_404:
  "requests_get example_api (repo_url (lib_github_owner library_A) (lib_github_repo library_A))
     = Inr \<lparr> status_code = 404, json = Object [] \<rparr>"
  by (simp add: example_api_def library_A_def)

theorem non_200_repository_is_skipped_witness:
  "requests_get example_api (repo_url (lib_github_owner library_A) (lib_github_repo library_A))
     = Inr \<lparr> status_code = 404, json = Object [] \<rparr> \<and>
   status_code \<lparr> status_code = 404, json = Object [] \<rparr> \<noteq> 200 \<and>
   get_repo_metrics example_api (lib_name library_A) (lib_github_owner library_A)
     (lib_github_repo library_A) ''token'' = Inr None \<and>
   github_repo_etl_main (example_env\<lparr>config_json := Some ([] @ library_A # [library_B])\<rparr>)
       example_api snowflake_default Map.empty example_warehouse
     = github_repo_etl_main (example_env\<lparr>config_json := Some ([] @ [library_B])\<rparr>)
         example_api snowflake_default Map.empty example_warehouse \<and>
   github_repo_etl_main (example_env\<lparr>config_json := Some [library_A]\<rparr>)
       example_api snowflake_default Map.empty example_warehouse = (Returned, example_warehouse)"
proof -
  have st: "status_code \<lparr> status_code = 404, json = Object [] \<rparr> \<noteq> 200" by simp
  have cfg: "github_load_config (example_env\<lparr>config_json := Some [library_A]\<rparr>)
             = Inr \<lparr> github_token = ''set'', libraries = [library_A],
                     snowflake = snowflake_section example_env \<rparr>"
    by (simp add: github_load_config_def example_env_def snowflake_section_def truthy_def)
  from non_200_repository_is_skipped[OF example_A_404 st, of "''token''" "[]" "[library_B]"
         example_env snowflake_default Map.empty example_warehouse] cfg example_A_404 st
  show ?thesis by simp
qed

end
